theory Spec2Isabelle
  imports Complex_Main "HOL-Library.Word" "HOL-Library.Log_Nat"
begin

section \<open>Numbers of the source language\<close>

text \<open>
  Every number of the program is an IEEE binary64 value. The integer quantities (grid
  columns, cell size, border size, the natural size of the clip, byte samples) are small
  integers, on which addition and multiplication are exact, and are modelled as \<open>nat\<close>.
  Two expressions leave the integers: \<^verbatim>\<open>(sourceHeight / sourceWidth) * targetWidth\<close> and
  \<^verbatim>\<open>data[index + 3] / 255\<close>. For them a value is a rational and every operation rounds
  its exact result to the nearest number with a 53-bit significand, ties to the even
  significand. The exponent range is not modelled: the quotients and products formed by
  the program lie far inside the normal range of binary64.
\<close>

definition ilog2 :: "rat \<Rightarrow> int" where
  \<comment> \<open>the exponent \<open>e\<close> with \<open>2^e \<le> q < 2^(e+1)\<close>, for \<open>q > 0\<close>\<close>
  "ilog2 q = (if 1 \<le> q then bitlen \<lfloor>q\<rfloor> - 1 else - bitlen (\<lceil>1 / q\<rceil> - 1))"

definition round_even :: "rat \<Rightarrow> int" where
  "round_even m =
     (let f = \<lfloor>m\<rfloor>; r = m - of_int f
      in if r < 1 / 2 then f
         else if 1 / 2 < r then f + 1
         else if even f then f else f + 1)"

definition fl :: "rat \<Rightarrow> rat" where
  "fl q =
     (if q = 0 then 0
      else let e = ilog2 \<bar>q\<bar> - 52
           in sgn q * of_int (round_even (\<bar>q\<bar> / (2 powi e))) * (2 powi e))"

definition js_div :: "rat \<Rightarrow> rat \<Rightarrow> rat" where
  "js_div a b = fl (a / b)"

definition js_mul :: "rat \<Rightarrow> rat \<Rightarrow> rat" where
  "js_mul a b = fl (a * b)"

definition Math_round :: "rat \<Rightarrow> int" where
  \<comment> \<open>the nearest integer, a tie going up\<close>
  "Math_round x = \<lfloor>x + 1 / 2\<rfloor>"

definition clamp :: "int \<Rightarrow> int \<Rightarrow> int \<Rightarrow> int" where
  "clamp v lo hi = min (max v lo) hi"

section \<open>Data of the component\<close>

type_synonym byte = "8 word"

datatype DownloadMode = Png | Jpg | Webp | Svg | Json

datatype VideoFormat = Webm | Mp4

text \<open>
  A fill style is one of the two strings the program assigns: a hexadecimal colour or
  the template \<^verbatim>\<open>rgba(r, g, b, a)\<close> with its four interpolated numbers.
\<close>

datatype fill_style = Hex string | Rgba byte byte byte rat

datatype draw_call =
    DrawImage nat nat nat nat
  | FillRect fill_style nat nat nat nat

text \<open>
  A canvas element with its 2D context. \<open>ctx2d\<close> says whether \<^verbatim>\<open>getContext('2d')\<close>
  yields a context; \<open>painted\<close> lists the drawing calls made since the bitmap was last
  reset, oldest first.
\<close>

record canvas_el =
  cwidth :: nat
  cheight :: nat
  ctx2d :: bool
  fillStyle :: fill_style
  painted :: "draw_call list"

text \<open>
  The video element. \<open>frame v w h\<close> is the RGBA byte array that reading back a
  \<open>w\<close> by \<open>h\<close> surface returns after the current frame has been drawn onto it
  scaled to that size.
\<close>

record video_el =
  videoWidth :: nat
  videoHeight :: nat
  frame :: "nat \<Rightarrow> nat \<Rightarrow> byte list"

record image_data =
  iwidth :: nat
  iheight :: nat
  idata :: "byte list"

datatype svg_part =
    SvgOpen nat nat
  | SvgBackground fill_style
  | SvgRect nat nat nat nat fill_style
  | SvgClose

record payload =
  source_width :: nat
  source_height :: nat
  grid_width :: nat
  grid_height :: nat
  p_cellSize :: nat
  p_borderSize :: nat
  colors :: "nat list"

datatype content =
    SvgText "svg_part list"
  | JsonText payload
  | Recorded "nat list"

text \<open>A blob built by the component, with its MIME type, or a file picked by the user.\<close>

datatype blob = Blob content string | File nat

datatype href = DataUrl canvas_el string rat | ObjectUrl nat

text \<open>The calls the component makes into the browser and into its own state setters.\<close>

datatype effect =
    CreateObjectURL nat blob
  | RevokeObjectURL nat
  | LinkClick href string
  | SetExportError "string option"
  | SetIsExporting bool
  | CaptureStream nat
  | NewMediaRecorder string
  | SetCurrentTime nat
  | Play
  | RecorderStart
  | RecorderStop
  | TrackStop nat
  | ConsoleError

record app =
  videoRef :: "video_el option"
  canvasRef :: "canvas_el option"
  smallCanvasRef :: "canvas_el option"
  pixelDataRef :: "image_data option"
  videoUrl :: "nat option"
  isReady :: bool
  sourceWidth :: nat
  sourceHeight :: nat
  targetWidth :: nat
  borderSize :: nat
  cellSize :: nat
  downloadMode :: DownloadMode
  videoFormat :: VideoFormat
  isExporting :: bool
  exportError :: "string option"
  mediaRecorderDefined :: bool
  isTypeSupported :: "string \<Rightarrow> bool"
  createElement_ctx2d :: bool
  nextUrl :: nat
  effects :: "effect list"

section \<open>Derived grid height\<close>

definition targetHeight :: "nat \<Rightarrow> nat \<Rightarrow> nat \<Rightarrow> nat" where
  "targetHeight sourceHeight' sourceWidth' targetWidth' =
     (if sourceWidth' = 0 \<or> sourceHeight' = 0 then 0
      else nat (max 1 (Math_round
             (js_mul (js_div (of_nat sourceHeight') (of_nat sourceWidth')) (of_nat targetWidth')))))"

definition targetHeight_of :: "app \<Rightarrow> nat" where
  "targetHeight_of s = targetHeight (sourceHeight s) (sourceWidth s) (targetWidth s)"

section \<open>The canvas operations used\<close>

definition set_width :: "nat \<Rightarrow> canvas_el \<Rightarrow> canvas_el" where
  \<comment> \<open>assigning a dimension resets the bitmap and the context state\<close>
  "set_width v c = c\<lparr>cwidth := v, fillStyle := Hex ''#000000'', painted := []\<rparr>"

definition set_height :: "nat \<Rightarrow> canvas_el \<Rightarrow> canvas_el" where
  "set_height v c = c\<lparr>cheight := v, fillStyle := Hex ''#000000'', painted := []\<rparr>"

definition createElement_canvas :: "app \<Rightarrow> canvas_el" where
  "createElement_canvas s =
     \<lparr>cwidth = 300, cheight = 150, ctx2d = createElement_ctx2d s,
      fillStyle = Hex ''#000000'', painted = []\<rparr>"

definition drawImage :: "nat \<Rightarrow> nat \<Rightarrow> nat \<Rightarrow> nat \<Rightarrow> canvas_el \<Rightarrow> canvas_el" where
  "drawImage dx dy dw dh c = c\<lparr>painted := painted c @ [DrawImage dx dy dw dh]\<rparr>"

definition getImageData :: "video_el \<Rightarrow> nat \<Rightarrow> nat \<Rightarrow> image_data" where
  "getImageData v w h = \<lparr>iwidth = w, iheight = h, idata = frame v w h\<rparr>"

definition fillRect :: "nat \<Rightarrow> nat \<Rightarrow> nat \<Rightarrow> nat \<Rightarrow> canvas_el \<Rightarrow> canvas_el" where
  "fillRect x y w h c = c\<lparr>painted := painted c @ [FillRect (fillStyle c) x y w h]\<rparr>"

text \<open>
  An image buffer as \<^verbatim>\<open>getImageData\<close> returns it: four bytes for each of its
  \<open>iwidth * iheight\<close> samples. On such a buffer every read of the loops below is in
  range.
\<close>

definition wf_image :: "image_data \<Rightarrow> bool" where
  "wf_image d \<longleftrightarrow> length (idata d) = iwidth d * iheight d * 4"

section \<open>The sample-and-render pass\<close>

definition cell_fill :: "byte list \<Rightarrow> nat \<Rightarrow> fill_style" where
  "cell_fill data index =
     (let r = data ! index;
          g = data ! (index + 1);
          b = data ! (index + 2);
          a = js_div (of_nat (unat (data ! (index + 3)))) 255
      in Rgba r g b a)"

function paint_row ::
  "byte list \<Rightarrow> nat \<Rightarrow> nat \<Rightarrow> nat \<Rightarrow> nat \<Rightarrow> nat \<Rightarrow> canvas_el \<Rightarrow> canvas_el" where
  "paint_row data width cs bs y x ctx =
     (if x < width then
        let index = (y * width + x) * 4;
            ctx1 = ctx\<lparr>fillStyle := cell_fill data index\<rparr>;
            drawX = bs + x * (cs + bs);
            drawY = bs + y * (cs + bs)
        in paint_row data width cs bs y (x + 1) (fillRect drawX drawY cs cs ctx1)
      else ctx)"
  by pat_completeness auto
termination
  by (relation "measure (\<lambda>(data, width, cs, bs, y, x, ctx). width - x)") auto

function paint_rows ::
  "byte list \<Rightarrow> nat \<Rightarrow> nat \<Rightarrow> nat \<Rightarrow> nat \<Rightarrow> nat \<Rightarrow> canvas_el \<Rightarrow> canvas_el" where
  "paint_rows data width height cs bs y ctx =
     (if y < height then
        paint_rows data width height cs bs (y + 1) (paint_row data width cs bs y 0 ctx)
      else ctx)"
  by pat_completeness auto
termination
  by (relation "measure (\<lambda>(data, width, height, cs, bs, y, ctx). height - y)") auto

declare paint_row.simps [simp del]
declare paint_rows.simps [simp del]

definition drawPixelFrame :: "app \<Rightarrow> app" where
  "drawPixelFrame s =
     (case videoRef s of None \<Rightarrow> s | Some video \<Rightarrow>
     (case canvasRef s of None \<Rightarrow> s | Some outputCanvas \<Rightarrow>
      if \<not> isReady s then s
      else
        let width = max 1 (targetWidth s);
            height = max 1 (targetHeight_of s);
            smallCanvas0 =
              (case smallCanvasRef s of None \<Rightarrow> createElement_canvas s | Some c \<Rightarrow> c);
            smallCanvas = set_height height (set_width width smallCanvas0);
            s1 = s\<lparr>smallCanvasRef := Some smallCanvas\<rparr>
        in if \<not> ctx2d smallCanvas then s1
           else
             let pixelData = getImageData video width height;
                 s2 = s1\<lparr>smallCanvasRef := Some (drawImage 0 0 width height smallCanvas),
                         pixelDataRef := Some pixelData\<rparr>;
                 outputWidth = width * cellSize s + (width + 1) * borderSize s;
                 outputHeight = height * cellSize s + (height + 1) * borderSize s;
                 out1 = set_height outputHeight (set_width outputWidth outputCanvas);
                 s3 = s2\<lparr>canvasRef := Some out1\<rparr>
             in if \<not> ctx2d out1 then s3
                else
                  let out2 = fillRect 0 0 outputWidth outputHeight
                               (out1\<lparr>fillStyle := Hex ''#ffffff''\<rparr>);
                      out3 = paint_rows (idata pixelData) width height
                               (cellSize s) (borderSize s) 0 out2
                  in s3\<lparr>canvasRef := Some out3\<rparr>))"


section \<open>Pixels of a painted canvas\<close>

text \<open>
  What a list of \<^verbatim>\<open>fillRect\<close> calls leaves at one pixel of a bitmap that was reset
  before them: the fills covering the pixel, composed in order over transparent black by
  the source-over rule, in exact arithmetic on channel values \<open>0..255\<close> and an alpha in
  \<open>0..1\<close>.
\<close>

type_synonym rgba = "rat \<times> rat \<times> rat \<times> rat"

definition style_colour :: "fill_style \<Rightarrow> rgba" where
  "style_colour st =
     (case st of
        Hex h \<Rightarrow> (if h = ''#ffffff'' then (255, 255, 255, 1) else (0, 0, 0, 1))
      | Rgba r g b a \<Rightarrow> (of_nat (unat r), of_nat (unat g), of_nat (unat b), a))"

definition source_over :: "rgba \<Rightarrow> rgba \<Rightarrow> rgba" where
  "source_over src dst =
     (case src of (sr, sg, sb, sa) \<Rightarrow>
      case dst of (dr, dg, db, da) \<Rightarrow>
        let oa = sa + da * (1 - sa)
        in if oa = 0 then (0, 0, 0, 0)
           else ((sr * sa + dr * da * (1 - sa)) / oa,
                 (sg * sa + dg * da * (1 - sa)) / oa,
                 (sb * sa + db * da * (1 - sa)) / oa,
                 oa))"

fun fill_at :: "draw_call \<Rightarrow> nat \<Rightarrow> nat \<Rightarrow> fill_style option" where
  "fill_at (FillRect st x y w h) px py =
     (if x \<le> px \<and> px < x + w \<and> y \<le> py \<and> py < y + h then Some st else None)"
| "fill_at (DrawImage dx dy dw dh) px py = None"

definition pixel_at :: "draw_call list \<Rightarrow> nat \<Rightarrow> nat \<Rightarrow> rgba" where
  "pixel_at calls px py =
     foldl (\<lambda>p call. case fill_at call px py of
                        None \<Rightarrow> p
                      | Some st \<Rightarrow> source_over (style_colour st) p)
       (0, 0, 0, 0) calls"

section \<open>Still exports\<close>

definition downloadBlob :: "blob \<Rightarrow> string \<Rightarrow> app \<Rightarrow> app" where
  "downloadBlob b filename s =
     (let url = nextUrl s
      in s\<lparr>nextUrl := url + 1,
            effects := effects s @
              [CreateObjectURL url b, LinkClick (ObjectUrl url) filename, RevokeObjectURL url]\<rparr>)"

definition mode_name :: "DownloadMode \<Rightarrow> string" where
  "mode_name m =
     (case m of Png \<Rightarrow> ''png'' | Jpg \<Rightarrow> ''jpg'' | Webp \<Rightarrow> ''webp''
      | Svg \<Rightarrow> ''svg'' | Json \<Rightarrow> ''json'')"

definition typeMap :: "DownloadMode \<Rightarrow> string" where
  "typeMap m =
     (case m of Png \<Rightarrow> ''image/png'' | Jpg \<Rightarrow> ''image/jpeg'' | Webp \<Rightarrow> ''image/webp''
      | Svg \<Rightarrow> ''image/svg+xml'' | Json \<Rightarrow> ''application/json'')"

function svg_row ::
  "byte list \<Rightarrow> nat \<Rightarrow> nat \<Rightarrow> nat \<Rightarrow> nat \<Rightarrow> nat \<Rightarrow> svg_part list \<Rightarrow> svg_part list" where
  "svg_row data width cs bs y x parts =
     (if x < width then
        let index = (y * width + x) * 4;
            drawX = bs + x * (cs + bs);
            drawY = bs + y * (cs + bs)
        in svg_row data width cs bs y (x + 1)
             (parts @ [SvgRect drawX drawY cs cs (cell_fill data index)])
      else parts)"
  by pat_completeness auto
termination
  by (relation "measure (\<lambda>(data, width, cs, bs, y, x, parts). width - x)") auto

function svg_rows ::
  "byte list \<Rightarrow> nat \<Rightarrow> nat \<Rightarrow> nat \<Rightarrow> nat \<Rightarrow> nat \<Rightarrow> svg_part list \<Rightarrow> svg_part list" where
  "svg_rows data width height cs bs y parts =
     (if y < height then
        svg_rows data width height cs bs (y + 1) (svg_row data width cs bs y 0 parts)
      else parts)"
  by pat_completeness auto
termination
  by (relation "measure (\<lambda>(data, width, height, cs, bs, y, parts). height - y)") auto

declare svg_row.simps [simp del]
declare svg_rows.simps [simp del]

definition svg_parts :: "image_data \<Rightarrow> nat \<Rightarrow> nat \<Rightarrow> svg_part list" where
  "svg_parts pd cs bs =
     (let width = iwidth pd;
          height = iheight pd;
          svgWidth = width * cs + (width + 1) * bs;
          svgHeight = height * cs + (height + 1) * bs;
          parts = [SvgOpen svgWidth svgHeight, SvgBackground (Hex ''#ffffff'')]
      in svg_rows (idata pd) width height cs bs 0 parts @ [SvgClose])"

function push_colors :: "byte list \<Rightarrow> nat \<Rightarrow> nat list \<Rightarrow> nat list" where
  "push_colors data i cols =
     (if i < length data then push_colors data (i + 1) (cols @ [unat (data ! i)])
      else cols)"
  by pat_completeness auto
termination
  by (relation "measure (\<lambda>(data, i, cols). length data - i)") auto

declare push_colors.simps [simp del]

definition json_payload :: "app \<Rightarrow> image_data \<Rightarrow> payload" where
  "json_payload s pixelData =
     \<lparr>source_width = sourceWidth s, source_height = sourceHeight s,
      grid_width = iwidth pixelData, grid_height = iheight pixelData,
      p_cellSize = cellSize s, p_borderSize = borderSize s,
      colors = push_colors (idata pixelData) 0 []\<rparr>"

definition handleDownload :: "app \<Rightarrow> app" where
  "handleDownload s =
     (case canvasRef s of None \<Rightarrow> s | Some canvas \<Rightarrow>
     (case pixelDataRef s of None \<Rightarrow> s | Some pixelData \<Rightarrow>
      if downloadMode s = Png \<or> downloadMode s = Jpg \<or> downloadMode s = Webp then
        s\<lparr>effects := effects s @
            [LinkClick (DataUrl canvas (typeMap (downloadMode s)) (fl (92 / 100)))
               (''pixel-frame.'' @ mode_name (downloadMode s))]\<rparr>
      else if downloadMode s = Svg then
        downloadBlob (Blob (SvgText (svg_parts pixelData (cellSize s) (borderSize s)))
                        ''image/svg+xml'') ''pixel-frame.svg'' s
      else
        downloadBlob (Blob (JsonText (json_payload s pixelData)) ''application/json'')
          ''pixel-frame.json'' s))"

section \<open>Video export\<close>

definition pick :: "(string \<Rightarrow> bool) \<Rightarrow> string list \<Rightarrow> string option" where
  "pick supported candidates = find supported candidates"

definition supportedVideoMimes :: "app \<Rightarrow> VideoFormat \<Rightarrow> string option" where
  "supportedVideoMimes s fmt =
     (if \<not> mediaRecorderDefined s then None
      else case fmt of
          Webm \<Rightarrow> pick (isTypeSupported s)
                     [''video/webm;codecs=vp9'', ''video/webm;codecs=vp8'', ''video/webm'']
        | Mp4 \<Rightarrow> pick (isTypeSupported s)
                    [''video/mp4;codecs=avc1.42E01E'',
                     ''video/mp4;codecs=avc1.42E01E,mp4a.40.2'', ''video/mp4''])"

definition format_name :: "VideoFormat \<Rightarrow> string" where
  "format_name f = (case f of Webm \<Rightarrow> ''webm'' | Mp4 \<Rightarrow> ''mp4'')"

definition format_upper :: "VideoFormat \<Rightarrow> string" where
  "format_upper f = (case f of Webm \<Rightarrow> ''WEBM'' | Mp4 \<Rightarrow> ''MP4'')"

text \<open>
  How the browser answers one export: the tracks of the stream that the canvas hands
  out, which calls throw or reject, whether the clip reaches its end, whether the
  recorder's stop event arrives, and the sizes of the chunks delivered before it.
\<close>

record outcomes =
  stream_tracks :: "nat list"
  capture_throws :: bool
  recorder_throws :: bool
  play_rejects :: bool
  start_throws :: bool
  ended_fires :: bool
  stop_throws :: bool
  stop_event_fires :: bool
  chunk_sizes :: "nat list"

text \<open>
  An asynchronous call ends in one of three ways: its promise resolves, its promise
  rejects with an exception nothing caught, or it waits for an event that never arrives.
  Each carries the state reached.
\<close>

datatype 'a run = Returned 'a | Rejected 'a | Pending 'a

definition emit :: "effect list \<Rightarrow> app \<Rightarrow> app" where
  "emit es s = s\<lparr>effects := effects s @ es\<rparr>"

definition export_finally :: "outcomes \<Rightarrow> app \<Rightarrow> app" where
  "export_finally oc s =
     (emit (map TrackStop (stream_tracks oc) @ [SetIsExporting False]) s)\<lparr>isExporting := False\<rparr>"

definition export_catch :: "app \<Rightarrow> app" where
  "export_catch s =
     (emit [SetExportError (Some ''Video export failed. Try again after reloading the video.''),
            ConsoleError] s)
       \<lparr>exportError := Some ''Video export failed. Try again after reloading the video.''\<rparr>"

definition handleVideoExport :: "outcomes \<Rightarrow> app \<Rightarrow> app run" where
  "handleVideoExport oc s =
     (if videoRef s = None \<or> canvasRef s = None \<or> \<not> isReady s \<or> isExporting s then Returned s
      else case supportedVideoMimes s (videoFormat s) of
          None \<Rightarrow>
            Returned ((emit [SetExportError
                        (Some (format_upper (videoFormat s) @
                               '' export is not supported in this browser.''))] s)
                      \<lparr>exportError := Some (format_upper (videoFormat s) @
                               '' export is not supported in this browser.'')\<rparr>)
        | Some mimeType \<Rightarrow>
            let s1 = (emit [SetExportError None, SetIsExporting True] s)
                       \<lparr>exportError := None, isExporting := True\<rparr>;
                s2 = emit [CaptureStream 30] s1
            in if capture_throws oc then Rejected s2
               else
                 let s3 = emit [NewMediaRecorder mimeType] s2
                 in if recorder_throws oc then Rejected s3
                    else
                      let s4 = emit [SetCurrentTime 0, Play] s3
                      in if play_rejects oc then Returned (export_finally oc (export_catch s4))
                         else
                           let s5 = emit [RecorderStart] s4
                           in if start_throws oc
                              then Returned (export_finally oc (export_catch s5))
                              else if \<not> ended_fires oc then Pending s5
                              else
                                let s6 = emit [RecorderStop] s5
                                in if stop_throws oc
                                   then Returned (export_finally oc (export_catch s6))
                                   else if \<not> stop_event_fires oc then Pending s6
                                   else
                                     Returned (export_finally oc
                                       (downloadBlob
                                          (Blob (Recorded (filter (\<lambda>size. 0 < size)
                                                             (chunk_sizes oc))) mimeType)
                                          (''pixel-video.'' @ format_name (videoFormat s))
                                          s6)))"

section \<open>The clip's object URL\<close>

definition revokeObjectURL :: "nat \<Rightarrow> app \<Rightarrow> app" where
  "revokeObjectURL url s = emit [RevokeObjectURL url] s"

definition handleFileChange :: "nat option \<Rightarrow> app \<Rightarrow> app" where
  "handleFileChange file s =
     (case file of None \<Rightarrow> s | Some f \<Rightarrow>
        let s1 = (case videoUrl s of None \<Rightarrow> s | Some old \<Rightarrow> revokeObjectURL old s);
            url = nextUrl s1;
            s2 = (emit [CreateObjectURL url (File f)] s1)\<lparr>nextUrl := url + 1\<rparr>
        in s2\<lparr>videoUrl := Some url, isReady := False\<rparr>)"

text \<open>
  The effect with dependency \<^verbatim>\<open>[videoUrl]\<close> has no body but its cleanup, which revokes
  the URL the effect was created with. The renderer runs the cleanup of the previous
  render's effect when the dependency has changed, and the cleanup of the last effect
  when the component is torn down.
\<close>

definition videoUrl_cleanup :: "nat option \<Rightarrow> app \<Rightarrow> app" where
  "videoUrl_cleanup captured s =
     (case captured of None \<Rightarrow> s | Some url \<Rightarrow> revokeObjectURL url s)"

definition rerender :: "app \<Rightarrow> app \<Rightarrow> app" where
  "rerender before s =
     (if videoUrl s \<noteq> videoUrl before then videoUrl_cleanup (videoUrl before) s else s)"

definition select_file :: "nat option \<Rightarrow> app \<Rightarrow> app" where
  "select_file file s = rerender s (handleFileChange file s)"

definition unmount :: "app \<Rightarrow> app" where
  "unmount s = videoUrl_cleanup (videoUrl s) s"

definition session :: "nat option list \<Rightarrow> app \<Rightarrow> app" where
  "session files s = unmount (fold select_file files s)"

definition revocations :: "nat \<Rightarrow> app \<Rightarrow> nat" where
  "revocations url s = length (filter (\<lambda>e. e = RevokeObjectURL url) (effects s))"


section \<open>What the render pass and the exports are compared with\<close>

text \<open>
  The rectangle of cell \<open>(x, y)\<close> as the specification words it: a square of side
  \<open>cs\<close> at offset \<open>(bs + x * (cs + bs), bs + y * (cs + bs))\<close>, filled with the colour
  \<^verbatim>\<open>rgba(r, g, b, a / 255)\<close> of the sample at index \<open>(y * columns + x) * 4\<close>; and the
  cells in row-major order.
\<close>

definition cell_rect :: "byte list \<Rightarrow> nat \<Rightarrow> nat \<Rightarrow> nat \<Rightarrow> nat \<Rightarrow> nat \<Rightarrow> draw_call" where
  "cell_rect data columns cs bs y x =
     FillRect (Rgba (data ! ((y * columns + x) * 4)) (data ! ((y * columns + x) * 4 + 1))
                 (data ! ((y * columns + x) * 4 + 2))
                 (js_div (of_nat (unat (data ! ((y * columns + x) * 4 + 3)))) 255))
       (bs + x * (cs + bs)) (bs + y * (cs + bs)) cs cs"

definition cell_rects :: "byte list \<Rightarrow> nat \<Rightarrow> nat \<Rightarrow> nat \<Rightarrow> nat \<Rightarrow> draw_call list" where
  "cell_rects data columns rows cs bs =
     concat (map (\<lambda>y. map (cell_rect data columns cs bs y) [0..<columns]) [0..<rows])"

definition svg_cell :: "byte list \<Rightarrow> nat \<Rightarrow> nat \<Rightarrow> nat \<Rightarrow> nat \<Rightarrow> nat \<Rightarrow> svg_part" where
  "svg_cell data columns cs bs y x =
     SvgRect (bs + x * (cs + bs)) (bs + y * (cs + bs)) cs cs
       (Rgba (data ! ((y * columns + x) * 4)) (data ! ((y * columns + x) * 4 + 1))
          (data ! ((y * columns + x) * 4 + 2))
          (js_div (of_nat (unat (data ! ((y * columns + x) * 4 + 3)))) 255))"

definition svg_cells :: "byte list \<Rightarrow> nat \<Rightarrow> nat \<Rightarrow> nat \<Rightarrow> nat \<Rightarrow> svg_part list" where
  "svg_cells data columns rows cs bs =
     concat (map (\<lambda>y. map (svg_cell data columns cs bs y) [0..<columns]) [0..<rows])"

fun call_rect :: "draw_call \<Rightarrow> (nat \<times> nat \<times> nat \<times> nat \<times> fill_style) option" where
  "call_rect (FillRect st x y w h) = Some (x, y, w, h, st)"
| "call_rect (DrawImage dx dy dw dh) = None"

fun part_rect :: "svg_part \<Rightarrow> (nat \<times> nat \<times> nat \<times> nat \<times> fill_style) option" where
  "part_rect (SvgRect x y w h st) = Some (x, y, w, h, st)"
| "part_rect (SvgOpen w h) = None"
| "part_rect (SvgBackground st) = None"
| "part_rect SvgClose = None"

fun is_rect_element :: "svg_part \<Rightarrow> bool" where
  "is_rect_element (SvgRect x y w h st) = True"
| "is_rect_element (SvgBackground st) = True"
| "is_rect_element (SvgOpen w h) = False"
| "is_rect_element SvgClose = False"

text \<open>Whether the off-screen canvas, kept or newly created, yields a 2D context.\<close>

definition small_ctx_available :: "app \<Rightarrow> bool" where
  "small_ctx_available s =
     (case smallCanvasRef s of None \<Rightarrow> createElement_ctx2d s | Some c \<Rightarrow> ctx2d c)"





section \<open>Concrete states\<close>

text \<open>
  The component as it is mounted: the defaults of its state hooks, the video element in
  place, no canvas yet (the canvas is rendered once a clip is ready).
\<close>

definition mounted_canvas :: "bool \<Rightarrow> canvas_el" where
  "mounted_canvas has_ctx =
     \<lparr>cwidth = 300, cheight = 150, ctx2d = has_ctx, fillStyle = Hex ''#000000'', painted = []\<rparr>"

definition initial_app :: "video_el \<Rightarrow> bool \<Rightarrow> (string \<Rightarrow> bool) \<Rightarrow> bool \<Rightarrow> app" where
  "initial_app v has_recorder supported small_ctx =
     \<lparr>videoRef = Some v, canvasRef = None, smallCanvasRef = None, pixelDataRef = None,
      videoUrl = None, isReady = False, sourceWidth = 0, sourceHeight = 0, targetWidth = 96,
      borderSize = 1, cellSize = 10, downloadMode = Png, videoFormat = Webm,
      isExporting = False, exportError = None, mediaRecorderDefined = has_recorder,
      isTypeSupported = supported, createElement_ctx2d = small_ctx, nextUrl = 0,
      effects = []\<rparr>"

definition red_video :: video_el where
  "red_video =
     \<lparr>videoWidth = 100, videoHeight = 100,
      frame = (\<lambda>w h. concat (replicate (w * h) [255, 0, 0, 255]))\<rparr>"

definition loaded_app :: "bool \<Rightarrow> (string \<Rightarrow> bool) \<Rightarrow> bool \<Rightarrow> app" where
  "loaded_app has_recorder supported out_ctx =
     (initial_app red_video has_recorder supported True)
       \<lparr>canvasRef := Some (mounted_canvas out_ctx), isReady := True,
        sourceWidth := 100, sourceHeight := 100\<rparr>"

definition one_track :: outcomes where
  "one_track =
     \<lparr>stream_tracks = [7], capture_throws = False, recorder_throws = False,
      play_rejects = False, start_throws = False, ended_fires = True, stop_throws = False,
      stop_event_fires = True, chunk_sizes = [512, 0, 256]\<rparr>"

definition never_ends :: outcomes where
  "never_ends = one_track\<lparr>ended_fires := False\<rparr>"


definition red_scenario :: app where
  \<comment> \<open>two columns of a square, uniformly red clip; cell size 10 and border 1 are the defaults\<close>
  "red_scenario = (loaded_app True (\<lambda>t. True) True)\<lparr>targetWidth := 2\<rparr>"

definition json_scenario :: app where
  "json_scenario =
     (loaded_app True (\<lambda>t. True) True)
       \<lparr>pixelDataRef := Some \<lparr>iwidth = 16, iheight = 9, idata = replicate 576 0\<rparr>,
        downloadMode := Json\<rparr>"

section \<open>The pixel buffer as a grid\<close>

text \<open>
  The sample of cell \<open>(x, y)\<close> of a buffer, the buffer as rows of samples, and a flat
  array cut into rows of \<open>columns\<close> groups of four.
\<close>

definition sample :: "image_data \<Rightarrow> nat \<Rightarrow> nat \<Rightarrow> byte list" where
  "sample pd x y =
     (let i = (y * iwidth pd + x) * 4
      in [idata pd ! i, idata pd ! (i + 1), idata pd ! (i + 2), idata pd ! (i + 3)])"

definition pixel_grid :: "image_data \<Rightarrow> byte list list list" where
  "pixel_grid pd = map (\<lambda>y. map (\<lambda>x. sample pd x y) [0..<iwidth pd]) [0..<iheight pd]"

definition reshape :: "nat \<Rightarrow> nat \<Rightarrow> 'a list \<Rightarrow> 'a list list list" where
  "reshape rows columns xs =
     map (\<lambda>y. map (\<lambda>x. map (\<lambda>ch. xs ! ((y * columns + x) * 4 + ch)) [0..<4]) [0..<columns])
       [0..<rows]"


section \<open>The quantities of one pass\<close>

text \<open>
  Names for what \<open>drawPixelFrame\<close> binds locally: the grid it samples, the off-screen
  canvas after sizing, and the output size.
\<close>

definition grid_columns :: "app \<Rightarrow> nat" where
  "grid_columns s = max 1 (targetWidth s)"

definition grid_rows :: "app \<Rightarrow> nat" where
  "grid_rows s = max 1 (targetHeight_of s)"

definition small_canvas :: "app \<Rightarrow> canvas_el" where
  "small_canvas s =
     set_height (grid_rows s) (set_width (grid_columns s)
       (case smallCanvasRef s of None \<Rightarrow> createElement_canvas s | Some c \<Rightarrow> c))"

definition output_width :: "app \<Rightarrow> nat" where
  "output_width s = grid_columns s * cellSize s + (grid_columns s + 1) * borderSize s"

definition output_height :: "app \<Rightarrow> nat" where
  "output_height s = grid_rows s * cellSize s + (grid_rows s + 1) * borderSize s"

definition sized_output :: "app \<Rightarrow> canvas_el \<Rightarrow> canvas_el" where
  "sized_output s c = set_height (output_height s) (set_width (output_width s) c)"

section \<open>The row count as the specification words it\<close>

text \<open>
  \<open>max(1, round(columns * h / w))\<close> in exact arithmetic, a tie rounding up as
  \<^verbatim>\<open>Math.round\<close> does; and the configurations at which \<open>columns * h / w\<close> lies exactly
  half-way between two integers.
\<close>

definition spec_rows :: "nat \<Rightarrow> nat \<Rightarrow> nat \<Rightarrow> nat" where
  "spec_rows h w columns =
     nat (max 1 \<lfloor>(of_nat columns * of_nat h / of_nat w :: rat) + 1 / 2\<rfloor>)"

definition half_way :: "nat \<Rightarrow> nat \<Rightarrow> nat \<Rightarrow> bool" where
  "half_way h w columns \<longleftrightarrow> (2 * columns * h + w) mod (2 * w) = 0"

section \<open>The loops in closed form\<close>

lemma paint_row_painted:
  "painted (paint_row data w cs bs y x ctx) = painted ctx @ map (cell_rect data w cs bs y) [x..<w]"
proof (induction data w cs bs y x ctx rule: paint_row.induct)
  case (1 data width cs bs y x ctx)
  show ?case
  proof (cases "x < width")
    case True
    then show ?thesis
      using 1 by (subst paint_row.simps) (simp add: Let_def fillRect_def upt_rec [of x width] cell_rect_def cell_fill_def)
  next
    case False
    then show ?thesis by (subst paint_row.simps) simp
  qed
qed

lemma paint_row_static:
  "cwidth (paint_row data w cs bs y x ctx) = cwidth ctx \<and>
   cheight (paint_row data w cs bs y x ctx) = cheight ctx \<and>
   ctx2d (paint_row data w cs bs y x ctx) = ctx2d ctx"
proof (induction data w cs bs y x ctx rule: paint_row.induct)
  case (1 data width cs bs y x ctx)
  show ?case
  proof (cases "x < width")
    case True
    then show ?thesis
      using 1 by (subst (1 2 3) paint_row.simps) (simp add: Let_def fillRect_def)
  next
    case False
    then show ?thesis by (subst (1 2 3) paint_row.simps) simp
  qed
qed

lemma paint_rows_painted:
  "painted (paint_rows data w h cs bs y ctx) =
     painted ctx @ concat (map (\<lambda>y. map (cell_rect data w cs bs y) [0..<w]) [y..<h])"
proof (induction data w h cs bs y ctx rule: paint_rows.induct)
  case (1 data width height cs bs y ctx)
  show ?case
  proof (cases "y < height")
    case True
    then show ?thesis
      using 1 by (subst paint_rows.simps) (simp add: paint_row_painted upt_rec [of y height])
  next
    case False
    then show ?thesis by (subst paint_rows.simps) simp
  qed
qed

lemma paint_rows_static:
  "cwidth (paint_rows data w h cs bs y ctx) = cwidth ctx \<and>
   cheight (paint_rows data w h cs bs y ctx) = cheight ctx \<and>
   ctx2d (paint_rows data w h cs bs y ctx) = ctx2d ctx"
proof (induction data w h cs bs y ctx rule: paint_rows.induct)
  case (1 data width height cs bs y ctx)
  show ?case
  proof (cases "y < height")
    case True
    then show ?thesis
      using 1 by (subst (1 2 3) paint_rows.simps) (simp add: paint_row_static)
  next
    case False
    then show ?thesis by (subst (1 2 3) paint_rows.simps) simp
  qed
qed

lemma svg_row_parts:
  "svg_row data w cs bs y x parts = parts @ map (svg_cell data w cs bs y) [x..<w]"
proof (induction data w cs bs y x parts rule: svg_row.induct)
  case (1 data width cs bs y x parts)
  show ?case
  proof (cases "x < width")
    case True
    then show ?thesis
      using 1 by (subst svg_row.simps) (simp add: Let_def upt_rec [of x width] svg_cell_def cell_fill_def)
  next
    case False
    then show ?thesis by (subst svg_row.simps) simp
  qed
qed

lemma svg_rows_parts:
  "svg_rows data w h cs bs y parts =
     parts @ concat (map (\<lambda>y. map (svg_cell data w cs bs y) [0..<w]) [y..<h])"
proof (induction data w h cs bs y parts rule: svg_rows.induct)
  case (1 data width height cs bs y parts)
  show ?case
  proof (cases "y < height")
    case True
    then show ?thesis
      using 1 by (subst svg_rows.simps) (simp add: svg_row_parts upt_rec [of y height])
  next
    case False
    then show ?thesis by (subst svg_rows.simps) simp
  qed
qed

lemma svg_parts_eq:
  "svg_parts pd cs bs =
     [SvgOpen (iwidth pd * cs + (iwidth pd + 1) * bs) (iheight pd * cs + (iheight pd + 1) * bs),
      SvgBackground (Hex ''#ffffff'')]
     @ svg_cells (idata pd) (iwidth pd) (iheight pd) cs bs @ [SvgClose]"
  by (simp add: svg_parts_def Let_def svg_rows_parts svg_cells_def)

lemma length_svg_cells: "length (svg_cells data columns rows cs bs) = columns * rows"
  by (induction rows) (simp_all add: svg_cells_def)

lemma rects_svg_cells: "filter is_rect_element (svg_cells data columns rows cs bs) = svg_cells data columns rows cs bs"
  by (rule filter_True) (auto simp: svg_cells_def svg_cell_def)

lemma cell_agreement:
  "part_rect (svg_cell data columns cs bs y x) = call_rect (cell_rect data columns cs bs y x)"
  by (simp add: svg_cell_def cell_rect_def)

lemma drawPixelFrame_sampled:
  assumes "videoRef s = Some v" "canvasRef s = Some c" "isReady s" "small_ctx_available s"
  shows "pixelDataRef (drawPixelFrame s) =
           Some (getImageData v (max 1 (targetWidth s)) (max 1 (targetHeight_of s)))"
    and "\<exists>c'. canvasRef (drawPixelFrame s) = Some c'
           \<and> cwidth c' = max 1 (targetWidth s) * cellSize s + (max 1 (targetWidth s) + 1) * borderSize s
           \<and> cheight c' = max 1 (targetHeight_of s) * cellSize s + (max 1 (targetHeight_of s) + 1) * borderSize s
           \<and> ctx2d c' = ctx2d c"
    and "videoRef (drawPixelFrame s) = Some v" "isReady (drawPixelFrame s)"
    and "small_ctx_available (drawPixelFrame s)"
    and "targetWidth (drawPixelFrame s) = targetWidth s"
    and "targetHeight_of (drawPixelFrame s) = targetHeight_of s"
    and "cellSize (drawPixelFrame s) = cellSize s" "borderSize (drawPixelFrame s) = borderSize s"
  using assms
  by (auto simp add: drawPixelFrame_def Let_def small_ctx_available_def set_width_def set_height_def
      drawImage_def fillRect_def paint_rows_static targetHeight_of_def createElement_canvas_def
      split: option.splits)

lemma drawPixelFrame_painted:
  assumes "videoRef s = Some v" "canvasRef s = Some c" "isReady s" "small_ctx_available s" "ctx2d c"
  shows "\<exists>c'. canvasRef (drawPixelFrame s) = Some c'
           \<and> painted c' = FillRect (Hex ''#ffffff'') 0 0 (cwidth c') (cheight c')
                # cell_rects (frame v (max 1 (targetWidth s)) (max 1 (targetHeight_of s)))
                    (max 1 (targetWidth s)) (max 1 (targetHeight_of s)) (cellSize s) (borderSize s)"
  using assms
  by (auto simp add: drawPixelFrame_def Let_def small_ctx_available_def set_width_def set_height_def
      drawImage_def fillRect_def paint_rows_static paint_rows_painted cell_rects_def getImageData_def
      createElement_canvas_def split: option.splits)

lemma length_cell_rects: "length (cell_rects data columns rows cs bs) = columns * rows"
  by (induction rows) (simp_all add: cell_rects_def)

lemma push_colors_eq: "push_colors data i cols = cols @ map unat (drop i data)"
proof (induction data i cols rule: push_colors.induct)
  case (1 data i cols)
  show ?case
  proof (cases "i < length data")
    case True
    then show ?thesis
      using 1 by (subst push_colors.simps) (simp add: Cons_nth_drop_Suc [symmetric])
  next
    case False
    then show ?thesis by (subst push_colors.simps) simp
  qed
qed

section \<open>Rounding error of the row computation\<close>

text \<open>
  The exponent chosen by \<open>ilog2\<close> brackets its argument, so the significand that
  \<open>fl\<close> rounds lies between \<open>2^52\<close> and \<open>2^53\<close> and one rounding moves a positive
  value by at most the fraction \<open>2^-53\<close> of itself.
\<close>

lemma ilog2_lower:
  assumes "0 < q"
  shows "2 powi (ilog2 q) \<le> q"
proof (cases "1 \<le> q")
  case True
  then have n: "0 < \<lfloor>q\<rfloor>" by simp
  have L: "1 \<le> bitlen \<lfloor>q\<rfloor>" using n by (simp add: bitlen_alt_def)
  have "(2::int) ^ nat (bitlen \<lfloor>q\<rfloor> - 1) \<le> \<lfloor>q\<rfloor>" using bitlen_bounds [OF n] by simp
  then have "(of_int ((2::int) ^ nat (bitlen \<lfloor>q\<rfloor> - 1)) :: rat) \<le> of_int \<lfloor>q\<rfloor>"
    by (simp only: of_int_le_iff)
  also have "\<dots> \<le> q" by simp
  finally have "(2::rat) ^ nat (bitlen \<lfloor>q\<rfloor> - 1) \<le> q" by simp
  then show ?thesis using True L by (simp add: ilog2_def power_int_def)
next
  case False
  define r where "r = 1 / q"
  define n where "n = \<lceil>r\<rceil> - 1"
  have r1: "1 < r" using False assms by (simp add: r_def)
  have n1: "0 < n" using r1 by (simp add: n_def less_ceiling_iff)
  have rn: "r \<le> of_int n + 1" by (simp add: n_def)
  have "n < 2 ^ nat (bitlen n)" using bitlen_bounds [OF n1] by simp
  then have "n + 1 \<le> 2 ^ nat (bitlen n)" by simp
  then have "(of_int (n + 1) :: rat) \<le> of_int (2 ^ nat (bitlen n))"
    by (simp only: of_int_le_iff)
  then have "r \<le> 2 ^ nat (bitlen n)" using rn by simp
  then have "1 / 2 ^ nat (bitlen n) \<le> 1 / r"
    using r1 by (simp add: frac_le)
  then have "inverse 2 ^ nat (bitlen n) \<le> q"
    using assms by (simp add: r_def power_one_over)
  moreover have "ilog2 q = - bitlen n" using False by (simp add: ilog2_def n_def r_def)
  moreover have "0 \<le> bitlen n" by (rule bitlen_nonneg)
  ultimately show ?thesis by (auto simp add: power_int_def)
qed

lemma ilog2_upper:
  assumes "0 < q"
  shows "q < 2 powi (ilog2 q + 1)"
proof (cases "1 \<le> q")
  case True
  then have n: "0 < \<lfloor>q\<rfloor>" by simp
  have L: "1 \<le> bitlen \<lfloor>q\<rfloor>" using n by (simp add: bitlen_alt_def)
  have "\<lfloor>q\<rfloor> < 2 ^ nat (bitlen \<lfloor>q\<rfloor>)" using bitlen_bounds [OF n] by simp
  then have "\<lfloor>q\<rfloor> + 1 \<le> 2 ^ nat (bitlen \<lfloor>q\<rfloor>)" by simp
  then have "(of_int (\<lfloor>q\<rfloor> + 1) :: rat) \<le> of_int (2 ^ nat (bitlen \<lfloor>q\<rfloor>))"
    by (simp only: of_int_le_iff)
  moreover have "q < of_int (\<lfloor>q\<rfloor> + 1)" by linarith
  ultimately have "q < 2 ^ nat (bitlen \<lfloor>q\<rfloor>)" by simp
  then show ?thesis using True L by (simp add: ilog2_def power_int_def)
next
  case False
  define r where "r = 1 / q"
  define n where "n = \<lceil>r\<rceil> - 1"
  have r1: "1 < r" using False assms by (simp add: r_def)
  have n1: "0 < n" using r1 by (simp add: n_def less_ceiling_iff)
  have L: "1 \<le> bitlen n" using n1 by (simp add: bitlen_alt_def)
  have nr: "of_int n < r" unfolding n_def by linarith
  have b: "2 ^ nat (bitlen n - 1) \<le> n" using bitlen_bounds [OF n1] by simp
  have "(2::rat) ^ nat (bitlen n - 1) = of_int (2 ^ nat (bitlen n - 1))" by simp
  also have "\<dots> \<le> of_int n" using b by (simp only: of_int_le_iff)
  also have "\<dots> < r" by (rule nr)
  finally have lt: "(2::rat) ^ nat (bitlen n - 1) < r" .
  have "1 / r < 1 / 2 ^ nat (bitlen n - 1)"
    using lt r1 by (intro divide_strict_left_mono) simp_all
  then have "q < inverse 2 ^ nat (bitlen n - 1)"
    using assms by (simp add: r_def power_one_over)
  moreover have "ilog2 q = - bitlen n" using False by (simp add: ilog2_def n_def r_def)
  ultimately show ?thesis using L
    by (cases "bitlen n = 1") (simp_all add: power_int_def)
qed

lemma round_even_error: "\<bar>of_int (round_even m) - m\<bar> \<le> 1 / 2"
proof -
  have "of_int \<lfloor>m\<rfloor> \<le> m" "m < of_int \<lfloor>m\<rfloor> + 1" by linarith+
  then show ?thesis
    by (auto simp add: round_even_def Let_def abs_le_iff)
qed

lemma fl_error:
  assumes "0 < q"
  shows "\<bar>fl q - q\<bar> \<le> q / 2 ^ 53"
proof -
  define e where "e = ilog2 q - 52"
  define m where "m = q / (2 powi e)"
  have pe: "(0::rat) < 2 powi e" by simp
  have flq: "fl q = of_int (round_even m) * (2 powi e)"
    using assms by (simp add: fl_def Let_def e_def m_def)
  have qm: "q = m * (2 powi e)" using pe by (simp add: m_def)
  have "fl q - q = of_int (round_even m) * (2 powi e) - m * (2 powi e)"
    by (simp only: flq qm [symmetric])
  then have "fl q - q = (of_int (round_even m) - m) * (2 powi e)"
    by (simp add: algebra_simps)
  then have "\<bar>fl q - q\<bar> = \<bar>of_int (round_even m) - m\<bar> * (2 powi e)"
    using pe by (simp add: abs_mult)
  also have "\<dots> \<le> (1 / 2) * (2 powi e)"
    using round_even_error [of m] pe by (intro mult_right_mono) simp_all
  also have "\<dots> = (2 powi (ilog2 q)) / 2 ^ 53"
    by (simp add: e_def power_int_diff)
  also have "\<dots> \<le> q / 2 ^ 53"
    using ilog2_lower [OF assms] by (simp add: divide_right_mono)
  finally show ?thesis .
qed


lemma fl_product_error:
  assumes "0 < q" "0 < c"
  shows "\<bar>fl (fl q * c) - q * c\<bar> \<le> q * c * (2 + 1 / 2 ^ 53) / 2 ^ 53"
proof -
  have a: "\<bar>fl q - q\<bar> \<le> q / 2 ^ 53" using fl_error [OF assms(1)] .
  have lo: "q - q / 2 ^ 53 \<le> fl q" and hi: "fl q \<le> q + q / 2 ^ 53"
    using a by linarith+
  have "0 < q - q / 2 ^ 53" using assms(1) by (simp add: field_simps)
  then have pos: "0 < fl q" using lo by linarith
  then have ppos: "0 < fl q * c" using assms(2) by simp
  have b: "\<bar>fl (fl q * c) - fl q * c\<bar> \<le> fl q * c / 2 ^ 53" using fl_error [OF ppos] .
  have "fl q * c \<le> (q + q / 2 ^ 53) * c"
    using hi assms(2) by (intro mult_right_mono) simp_all
  then have b': "fl q * c / 2 ^ 53 \<le> (q + q / 2 ^ 53) * c / 2 ^ 53"
    by (intro divide_right_mono) simp_all
  have "\<bar>fl q * c - q * c\<bar> = \<bar>fl q - q\<bar> * c"
    using assms(2) by (simp add: abs_mult left_diff_distrib [symmetric])
  also have "\<dots> \<le> q / 2 ^ 53 * c"
    using a assms(2) by (intro mult_right_mono) simp_all
  finally have d: "\<bar>fl q * c - q * c\<bar> \<le> q / 2 ^ 53 * c" .
  have "\<bar>fl (fl q * c) - q * c\<bar> \<le> \<bar>fl (fl q * c) - fl q * c\<bar> + \<bar>fl q * c - q * c\<bar>"
    by linarith
  also have "\<dots> \<le> (q + q / 2 ^ 53) * c / 2 ^ 53 + q / 2 ^ 53 * c"
    using b b' d by linarith
  also have "\<dots> = q * c * (2 + 1 / 2 ^ 53) / 2 ^ 53"
    by (simp add: field_simps)
  finally show ?thesis .
qed

lemma rows_error:
  assumes "0 < sw" "0 < sh" "0 < c" "c * sh \<le> 2 ^ 50"
  shows "\<bar>js_mul (js_div (of_nat sh) (of_nat sw)) (of_nat c) - of_nat c * of_nat sh / of_nat sw\<bar>
           < 1 / of_nat (2 * sw)"
proof -
  let ?q = "of_nat sh / of_nat sw :: rat"
  let ?c = "of_nat c :: rat"
  have q: "0 < ?q" and c: "0 < ?c" using assms by simp_all
  have e: "\<bar>fl (fl ?q * ?c) - ?q * ?c\<bar> \<le> ?q * ?c * (2 + 1 / 2 ^ 53) / 2 ^ 53"
    using fl_product_error [OF q c] .
  have "(of_nat (c * sh) :: rat) \<le> of_nat (2 ^ 50)"
    using assms(4) by (simp only: of_nat_le_iff)
  then have cs: "?c * of_nat sh \<le> 2 ^ 50" by simp
  have "?q * ?c = (?c * of_nat sh) / of_nat sw" by simp
  also have "\<dots> \<le> 2 ^ 50 / of_nat sw"
    using cs assms(1) by (intro divide_right_mono) simp_all
  finally have X: "?q * ?c \<le> 2 ^ 50 / of_nat sw" .
  have "?q * ?c * (2 + 1 / 2 ^ 53) / 2 ^ 53 \<le> (2 ^ 50 / of_nat sw) * (2 + 1 / 2 ^ 53) / 2 ^ 53"
    using X by (intro divide_right_mono mult_right_mono) simp_all
  also have "\<dots> < 1 / of_nat (2 * sw)"
    using assms(1) by (simp add: field_simps)
  finally have "?q * ?c * (2 + 1 / 2 ^ 53) / 2 ^ 53 < 1 / of_nat (2 * sw)" .
  with e have "\<bar>fl (fl ?q * ?c) - ?q * ?c\<bar> < 1 / of_nat (2 * sw)" by linarith
  then show ?thesis by (simp add: js_mul_def js_div_def mult.commute)
qed


lemma floor_near:
  fixes y :: rat and N D :: int
  assumes D: "0 < D" and near: "\<bar>y - of_int N / of_int D\<bar> < 1 / of_int D"
  shows "N mod D \<noteq> 0 \<Longrightarrow> \<lfloor>y\<rfloor> = N div D" and "N div D - 1 \<le> \<lfloor>y\<rfloor>" and "\<lfloor>y\<rfloor> \<le> N div D"
proof -
  define n where "n = N div D"
  define r where "r = N mod D"
  have N: "N = n * D + r" by (simp add: n_def r_def)
  have r: "0 \<le> r" "r < D" using D by (simp_all add: r_def)
  have Dr: "(0::rat) < of_int D" using D by simp
  have frac: "(of_int N / of_int D :: rat) = of_int n + of_int r / of_int D"
    using Dr by (simp add: N field_simps)
  have lo: "of_int n + (of_int r - 1) / of_int D < y"
    using near Dr by (simp add: frac abs_less_iff field_simps)
  have hi: "y < of_int n + (of_int r + 1) / of_int D"
    using near Dr by (simp add: frac abs_less_iff field_simps)
  have "r + 1 \<le> D" using r by simp
  then have "(of_int (r + 1) :: rat) \<le> of_int D" by (simp only: of_int_le_iff)
  then have "(of_int r + 1) / of_int D \<le> (1::rat)" using Dr by simp
  then have up: "y < of_int n + 1" using hi by linarith
  then show "\<lfloor>y\<rfloor> \<le> N div D" by (simp add: n_def floor_le_iff)
  have "(-1::rat) \<le> of_int r - 1" using r by simp
  then have "(-1::rat) / of_int D \<le> (of_int r - 1) / of_int D"
    using Dr by (intro divide_right_mono) simp_all
  moreover have "(-1::rat) \<le> -1 / of_int D" using D by (simp add: field_simps)
  ultimately have "of_int n - 1 < y" using lo by linarith
  then have "of_int (n - 1) \<le> y" by simp
  then show "N div D - 1 \<le> \<lfloor>y\<rfloor>" by (simp only: n_def le_floor_iff)
  show "\<lfloor>y\<rfloor> = N div D" if "N mod D \<noteq> 0"
  proof -
    have "1 \<le> r" using that r by (simp add: r_def)
    then have "(0::rat) \<le> of_int r - 1" by simp
    then have "(0::rat) \<le> (of_int r - 1) / of_int D" using Dr by simp
    then have "of_int n \<le> y" using lo by linarith
    then show ?thesis using up by (simp add: n_def floor_unique)
  qed
qed


lemma rows_cases:
  assumes "0 < sw" "0 < sh" "0 < c" "c * sh \<le> 2 ^ 50"
  shows "\<not> half_way sh sw c \<Longrightarrow> targetHeight sh sw c = spec_rows sh sw c"
    and "targetHeight sh sw c \<le> spec_rows sh sw c"
    and "spec_rows sh sw c \<le> targetHeight sh sw c + 1"
proof -
  let ?p = "js_mul (js_div (of_nat sh) (of_nat sw)) (of_nat c)"
  let ?N = "int (2 * c * sh + sw)" and ?D = "int (2 * sw)"
  have D: "0 < ?D" using assms(1) by simp
  have X: "(of_int ?N / of_int ?D :: rat) = of_nat c * of_nat sh / of_nat sw + 1 / 2"
    using assms(1) by (simp add: field_simps)
  have "(?p + 1 / 2) - of_int ?N / of_int ?D = ?p - of_nat c * of_nat sh / of_nat sw"
    by (simp only: X)
  moreover have "(1 / of_int ?D :: rat) = 1 / of_nat (2 * sw)"
    by (simp only: of_int_of_nat_eq)
  ultimately have near: "\<bar>(?p + 1 / 2) - of_int ?N / of_int ?D\<bar> < 1 / of_int ?D"
    using rows_error [OF assms] by (simp only:)
  have th: "targetHeight sh sw c = nat (max 1 \<lfloor>?p + 1 / 2\<rfloor>)"
    using assms(1,2) by (simp add: targetHeight_def Math_round_def)
  have "\<lfloor>(of_nat c * of_nat sh / of_nat sw :: rat) + 1 / 2\<rfloor> = \<lfloor>(of_int ?N / of_int ?D :: rat)\<rfloor>"
    by (simp only: X)
  also have "\<dots> = ?N div ?D" by (rule floor_divide_of_int_eq)
  finally have sp: "spec_rows sh sw c = nat (max 1 (?N div ?D))"
    by (simp add: spec_rows_def)
  have "?N mod ?D = int ((2 * c * sh + sw) mod (2 * sw))"
    by (simp only: zmod_int)
  then have hw: "half_way sh sw c \<longleftrightarrow> ?N mod ?D = 0"
    unfolding half_way_def by (simp only: of_nat_eq_0_iff)
  show "targetHeight sh sw c = spec_rows sh sw c" if "\<not> half_way sh sw c"
  proof -
    have "?N mod ?D \<noteq> 0" using that unfolding hw .
    then have "\<lfloor>?p + 1 / 2\<rfloor> = ?N div ?D" by (rule floor_near(1) [OF D near])
    then show ?thesis by (simp only: th sp)
  qed
  have le: "\<lfloor>?p + 1 / 2\<rfloor> \<le> ?N div ?D" by (rule floor_near(3) [OF D near])
  have ge: "?N div ?D - 1 \<le> \<lfloor>?p + 1 / 2\<rfloor>" by (rule floor_near(2) [OF D near])
  show "targetHeight sh sw c \<le> spec_rows sh sw c"
    unfolding th sp using le by linarith
  show "spec_rows sh sw c \<le> targetHeight sh sw c + 1"
    unfolding th sp using ge by linarith
qed



lemma cropped_hd_rows: "targetHeight 1040 1920 108 = 58"
proof -
  have a: "js_div 1040 1920 = 4878899596318037 / 9007199254740992" by code_simp
  have b: "js_mul (4878899596318037 / 9007199254740992) 108 = 8233143068786687 / 140737488355328"
    by code_simp
  have c: "Math_round (8233143068786687 / 140737488355328) = 58" by code_simp
  show ?thesis by (simp add: targetHeight_def a b c)
qed

lemma cropped_hd_spec: "spec_rows 1040 1920 108 = 59"
  by (simp add: spec_rows_def)

lemma no_clip_rows: "targetHeight 0 0 c = 0"
  by (simp add: targetHeight_def)

section \<open>Derived rows\<close>

text \<open>
  C3, as the code has it. When the clip's width or height is 0 the derived row count
  is 0. Otherwise it is \<open>max(1, Math.round((h / w) * columns))\<close> with the quotient and the
  product each rounded to double precision, hence at least 1. For columns in
  \<open>[16, 256]\<close> and a height below \<open>2^32\<close> this equals \<open>max(1, round(columns * h / w))\<close>
  whenever \<open>columns * h / w\<close> is not exactly half-way between two integers, and is never
  above it nor more than one below it.
\<close>

theorem derived_rows:
  "(sw = 0 \<or> sh = 0 \<longrightarrow> targetHeight sh sw c = 0)
   \<and> (0 < sw \<and> 0 < sh \<longrightarrow>
        1 \<le> targetHeight sh sw c
      \<and> targetHeight sh sw c
          = nat (max 1 (Math_round (js_mul (js_div (of_nat sh) (of_nat sw)) (of_nat c)))))
   \<and> (0 < sw \<and> 0 < sh \<and> 16 \<le> c \<and> c \<le> 256 \<and> sh < 2 ^ 32 \<longrightarrow>
        (\<not> half_way sh sw c \<longrightarrow> targetHeight sh sw c = spec_rows sh sw c)
      \<and> targetHeight sh sw c \<le> spec_rows sh sw c
      \<and> spec_rows sh sw c \<le> targetHeight sh sw c + 1)"
proof (intro conjI impI)
  assume "sw = 0 \<or> sh = 0"
  then show "targetHeight sh sw c = 0" by (auto simp add: targetHeight_def)
next
  assume "0 < sw \<and> 0 < sh"
  then show "1 \<le> targetHeight sh sw c" by (simp add: targetHeight_def)
next
  assume "0 < sw \<and> 0 < sh"
  then show "targetHeight sh sw c
          = nat (max 1 (Math_round (js_mul (js_div (of_nat sh) (of_nat sw)) (of_nat c))))"
    by (simp add: targetHeight_def)
next
  assume a: "0 < sw \<and> 0 < sh \<and> 16 \<le> c \<and> c \<le> 256 \<and> sh < 2 ^ 32"
  then have "c * sh \<le> 256 * 2 ^ 32" by (intro mult_mono) simp_all
  also have "\<dots> \<le> (2::nat) ^ 50" by simp
  finally have b: "c * sh \<le> 2 ^ 50" .
  have g: "0 < sw" "0 < sh" "0 < c" using a by simp_all
  assume "\<not> half_way sh sw c"
  then show "targetHeight sh sw c = spec_rows sh sw c" by (rule rows_cases(1) [OF g b])
next
  assume a: "0 < sw \<and> 0 < sh \<and> 16 \<le> c \<and> c \<le> 256 \<and> sh < 2 ^ 32"
  then have "c * sh \<le> 256 * 2 ^ 32" by (intro mult_mono) simp_all
  also have "\<dots> \<le> (2::nat) ^ 50" by simp
  finally have b: "c * sh \<le> 2 ^ 50" .
  have g: "0 < sw" "0 < sh" "0 < c" using a by simp_all
  show "targetHeight sh sw c \<le> spec_rows sh sw c" by (rule rows_cases(2) [OF g b])
next
  assume a: "0 < sw \<and> 0 < sh \<and> 16 \<le> c \<and> c \<le> 256 \<and> sh < 2 ^ 32"
  then have "c * sh \<le> 256 * 2 ^ 32" by (intro mult_mono) simp_all
  also have "\<dots> \<le> (2::nat) ^ 50" by simp
  finally have b: "c * sh \<le> 2 ^ 50" .
  have g: "0 < sw" "0 < sh" "0 < c" using a by simp_all
  show "spec_rows sh sw c \<le> targetHeight sh sw c + 1" by (rule rows_cases(3) [OF g b])
qed

theorem derived_rows_witness:
  "targetHeight 0 0 96 = 0
   \<and> 1 \<le> targetHeight 1080 1920 96
   \<and> targetHeight 1080 1920 96 = spec_rows 1080 1920 96
   \<and> spec_rows 1080 1920 96 = 54"
proof -
  have h: "\<not> half_way 1080 1920 96" by (simp add: half_way_def)
  have "\<lfloor>(109 / 2 :: rat)\<rfloor> = 54" by (rule floor_unique) simp_all
  then have s: "spec_rows 1080 1920 96 = 54" by (simp add: spec_rows_def)
  show ?thesis
    using derived_rows [of 0 0 96] derived_rows [of 1920 1080 96] h s by simp
qed

text \<open>
  C3, as the claim states it, fails twice. A clip without video dimensions (width and
  height 0, as an audio-only file reports) has the derived row count 0, not at least 1.
  And for a 1920 by 1040 clip at 108 columns, where \<open>108 * 1040 / 1920 = 58.5\<close>, the
  rounded quotient times 108 rounds to a double just below 58.5: the code yields 58 rows
  where \<open>max(1, round(columns * h / w))\<close> is 59.
\<close>

theorem derived_rows_zero_and_tie:
  "targetHeight 0 0 96 = 0
   \<and> \<not> 1 \<le> targetHeight 0 0 96
   \<and> targetHeight 1040 1920 108 = 58
   \<and> spec_rows 1040 1920 108 = 59
   \<and> targetHeight 1040 1920 108 \<noteq> spec_rows 1040 1920 108"
  by (simp add: cropped_hd_rows cropped_hd_spec no_clip_rows)

section \<open>Facts about the concrete states\<close>

lemma loaded_app_guard:
  "videoRef (loaded_app r f c) = Some red_video"
  "canvasRef (loaded_app r f c) = Some (mounted_canvas c)"
  "isReady (loaded_app r f c)" "\<not> isExporting (loaded_app r f c)"
  by (simp_all add: loaded_app_def initial_app_def)

lemma loaded_app_mime:
  "supportedVideoMimes (loaded_app True (\<lambda>t. True) c) (videoFormat (loaded_app True (\<lambda>t. True) c))
     = Some ''video/webm;codecs=vp9''"
  "supportedVideoMimes (loaded_app False f c) (videoFormat (loaded_app False f c)) = None"
  by (simp_all add: loaded_app_def initial_app_def supportedVideoMimes_def pick_def)

lemma length_uniform: "length (concat (replicate n [a, b, c, d])) = n * 4"
  by (induction n) simp_all

section \<open>The render pass, branch by branch\<close>

lemma small_canvas_ctx: "ctx2d (small_canvas s) = small_ctx_available s"
  by (simp add: small_canvas_def small_ctx_available_def set_width_def set_height_def
      createElement_canvas_def split: option.splits)

lemma drawPixelFrame_guarded:
  "videoRef s = None \<or> canvasRef s = None \<or> \<not> isReady s \<Longrightarrow> drawPixelFrame s = s"
  by (auto simp add: drawPixelFrame_def split: option.splits)

lemma drawPixelFrame_no_small_ctx:
  assumes "videoRef s = Some v" "canvasRef s = Some c" "isReady s" "\<not> small_ctx_available s"
  shows "drawPixelFrame s = s\<lparr>smallCanvasRef := Some (small_canvas s)\<rparr>"
  using assms small_canvas_ctx [of s]
  by (simp add: drawPixelFrame_def Let_def small_canvas_def grid_columns_def grid_rows_def)

lemma drawPixelFrame_no_output_ctx:
  assumes "videoRef s = Some v" "canvasRef s = Some c" "isReady s" "small_ctx_available s"
    and "\<not> ctx2d c"
  shows "drawPixelFrame s =
     s\<lparr>smallCanvasRef := Some (drawImage 0 0 (grid_columns s) (grid_rows s) (small_canvas s)),
       pixelDataRef := Some (getImageData v (grid_columns s) (grid_rows s)),
       canvasRef := Some (sized_output s c)\<rparr>"
proof -
  have "\<not> ctx2d (sized_output s c)"
    using assms(5) by (simp add: sized_output_def set_width_def set_height_def)
  then show ?thesis
    using assms(1-4) small_canvas_ctx [of s]
    by (simp add: drawPixelFrame_def Let_def small_canvas_def grid_columns_def grid_rows_def
        sized_output_def output_width_def output_height_def)
qed

lemma drawPixelFrame_complete:
  assumes "videoRef s = Some v" "canvasRef s = Some c" "isReady s" "small_ctx_available s"
    and "ctx2d c"
  shows "drawPixelFrame s =
     s\<lparr>smallCanvasRef := Some (drawImage 0 0 (grid_columns s) (grid_rows s) (small_canvas s)),
       pixelDataRef := Some (getImageData v (grid_columns s) (grid_rows s)),
       canvasRef := Some (paint_rows (frame v (grid_columns s) (grid_rows s))
                            (grid_columns s) (grid_rows s) (cellSize s) (borderSize s) 0
                            (fillRect 0 0 (output_width s) (output_height s)
                               ((sized_output s c)\<lparr>fillStyle := Hex ''#ffffff''\<rparr>)))\<rparr>"
proof -
  have "ctx2d (sized_output s c)"
    using assms(5) by (simp add: sized_output_def set_width_def set_height_def)
  then show ?thesis
    using assms(1-4) small_canvas_ctx [of s]
    by (simp add: drawPixelFrame_def Let_def small_canvas_def grid_columns_def grid_rows_def
        sized_output_def output_width_def output_height_def getImageData_def)
qed

lemma cell_index_bound: "y < h \<Longrightarrow> x < w \<Longrightarrow> ch < 4 \<Longrightarrow> (y * w + x) * 4 + ch < w * h * (4::nat)"
proof -
  assume a: "y < h" "x < w" "ch < 4"
  have "y * w + x < (y + 1) * w" using a by simp
  also have "\<dots> \<le> h * w" using a by (intro mult_le_mono1) simp
  finally have "y * w + x < w * h" by (simp add: mult.commute)
  then show ?thesis using a by simp
qed

lemma nth_grid:
  "y < h \<Longrightarrow> x < w \<Longrightarrow> concat (map (\<lambda>y. map (f y) [0..<w]) [0..<h]) ! (y * w + x) = f y x"
proof (induction h)
  case 0
  then show ?case by simp
next
  case (Suc h)
  have len: "length (concat (map (\<lambda>y. map (f y) [0..<w]) [0..<h])) = h * w"
    by (induction h) simp_all
  show ?case
  proof (cases "y < h")
    case True
    then have "y * w + x < h * w" using Suc.prems cell_index_bound [of y h x w 0] by (simp add: mult.commute)
    then show ?thesis using Suc True by (simp add: nth_append len)
  next
    case False
    then have "y = h" using Suc.prems by simp
    then show ?thesis using Suc.prems by (simp add: nth_append len)
  qed
qed

lemma th96: "targetHeight 100 100 96 = 96" by code_simp
lemma th2: "targetHeight 100 100 2 = 2" by code_simp

lemma getImageData_sel:
  "iwidth (getImageData v w h) = w" "iheight (getImageData v w h) = h"
  "idata (getImageData v w h) = frame v w h"
  by (simp_all add: getImageData_def)

lemma nth_cell_rects:
  "y < h \<Longrightarrow> x < w \<Longrightarrow> cell_rects d w h cs bs ! (y * w + x) = cell_rect d w cs bs y x"
  unfolding cell_rects_def by (rule nth_grid)

lemma nth_svg_cells:
  "y < h \<Longrightarrow> x < w \<Longrightarrow> svg_cells d w h cs bs ! (y * w + x) = svg_cell d w cs bs y x"
  unfolding svg_cells_def by (rule nth_grid)

lemma red_cells:
  "cell_rects (frame red_video 2 2) 2 2 10 1 =
     [FillRect (Rgba 255 0 0 1) 1 1 10 10, FillRect (Rgba 255 0 0 1) 12 1 10 10,
      FillRect (Rgba 255 0 0 1) 1 12 10 10, FillRect (Rgba 255 0 0 1) 12 12 10 10]"
  by code_simp

lemma red_scenario_guard:
  "videoRef red_scenario = Some red_video" "canvasRef red_scenario = Some (mounted_canvas True)"
  "isReady red_scenario" "small_ctx_available red_scenario" "ctx2d (mounted_canvas True)"
  "targetWidth red_scenario = 2" "targetHeight_of red_scenario = 2"
  "cellSize red_scenario = 10" "borderSize red_scenario = 1"
  by (simp_all add: red_scenario_def loaded_app_def initial_app_def small_ctx_available_def
      mounted_canvas_def targetHeight_of_def th2)

lemma red_pixels:
  "px < 23 \<Longrightarrow> py < 23 \<Longrightarrow>
   pixel_at [FillRect (Hex ''#ffffff'') 0 0 23 23,
       FillRect (Rgba 255 0 0 1) 1 1 10 10, FillRect (Rgba 255 0 0 1) 12 1 10 10,
       FillRect (Rgba 255 0 0 1) 1 12 10 10, FillRect (Rgba 255 0 0 1) 12 12 10 10] px py
     = (if px \<in> {0, 11, 22} \<or> py \<in> {0, 11, 22} then (255, 255, 255, 1) else (255, 0, 0, 1))"
  by (auto simp add: pixel_at_def source_over_def style_colour_def)

lemma loaded_app_small_ctx: "small_ctx_available (loaded_app r f c)"
  by (simp add: loaded_app_def initial_app_def small_ctx_available_def)

lemma loaded_app_grid:
  "max 1 (targetWidth (loaded_app r f c)) = 96" "max 1 (targetHeight_of (loaded_app r f c)) = 96"
  "cellSize (loaded_app r f c) = 10" "borderSize (loaded_app r f c) = 1"
  by (simp_all add: loaded_app_def initial_app_def targetHeight_of_def th96)

lemma red_result:
  "\<exists>c'. canvasRef (drawPixelFrame red_scenario) = Some c' \<and> cwidth c' = 23 \<and> cheight c' = 23
     \<and> painted c' = [FillRect (Hex ''#ffffff'') 0 0 23 23,
       FillRect (Rgba 255 0 0 1) 1 1 10 10, FillRect (Rgba 255 0 0 1) 12 1 10 10,
       FillRect (Rgba 255 0 0 1) 1 12 10 10, FillRect (Rgba 255 0 0 1) 12 12 10 10]"
proof -
  have W: "max 1 (targetWidth red_scenario) = 2" "max 1 (targetHeight_of red_scenario) = 2"
    by (simp_all add: red_scenario_guard)
  have D: "(2::nat) * 10 + (2 + 1) * 1 = 23" by simp
  obtain c' where c': "canvasRef (drawPixelFrame red_scenario) = Some c'"
    "painted c' = FillRect (Hex ''#ffffff'') 0 0 (cwidth c') (cheight c')
        # cell_rects (frame red_video 2 2) 2 2 10 1"
    using drawPixelFrame_painted [OF red_scenario_guard(1-5), unfolded W red_scenario_guard(8,9)]
    by blast
  obtain c2 where c2: "canvasRef (drawPixelFrame red_scenario) = Some c2"
    "cwidth c2 = 23" "cheight c2 = 23"
    using drawPixelFrame_sampled(2) [OF red_scenario_guard(1-4), unfolded W red_scenario_guard(8,9) D]
    by blast
  show ?thesis
    using c'(1) c'(2) [unfolded red_cells] c2 by simp
qed

section \<open>Skipped passes\<close>

text \<open>
  C8, as the code has it. A pass invoked with the video element absent, the output
  canvas absent or the readiness flag unset leaves the whole state as it was. With the
  off-screen context unavailable the pass changes nothing but the off-screen canvas, which
  it has (created and) sized: the stored pixel buffer, the output canvas and the error
  message are untouched. With the on-screen context unavailable nothing is painted and no
  message is set, but the stored pixel buffer has been replaced by the fresh sample and
  the output canvas has been given its new size.
\<close>

theorem skipped_pass:
  "(videoRef s = None \<or> canvasRef s = None \<or> \<not> isReady s \<longrightarrow> drawPixelFrame s = s)
   \<and> (videoRef s = Some v \<and> canvasRef s = Some c \<and> isReady s \<and> \<not> small_ctx_available s \<longrightarrow>
        (\<exists>sc. drawPixelFrame s = s\<lparr>smallCanvasRef := Some sc\<rparr>
           \<and> cwidth sc = max 1 (targetWidth s) \<and> cheight sc = max 1 (targetHeight_of s)
           \<and> \<not> ctx2d sc \<and> painted sc = []))
   \<and> (videoRef s = Some v \<and> canvasRef s = Some c \<and> isReady s \<and> small_ctx_available s \<and> \<not> ctx2d c \<longrightarrow>
        (\<exists>sc c'. drawPixelFrame s =
             s\<lparr>smallCanvasRef := Some sc,
               pixelDataRef := Some (getImageData v (max 1 (targetWidth s)) (max 1 (targetHeight_of s))),
               canvasRef := Some c'\<rparr>
           \<and> painted c' = [] \<and> \<not> ctx2d c'
           \<and> cwidth c' = max 1 (targetWidth s) * cellSize s + (max 1 (targetWidth s) + 1) * borderSize s
           \<and> cheight c' = max 1 (targetHeight_of s) * cellSize s + (max 1 (targetHeight_of s) + 1) * borderSize s))"
proof (intro conjI impI)
  assume "videoRef s = None \<or> canvasRef s = None \<or> \<not> isReady s"
  then show "drawPixelFrame s = s" by (rule drawPixelFrame_guarded)
next
  assume a: "videoRef s = Some v \<and> canvasRef s = Some c \<and> isReady s \<and> \<not> small_ctx_available s"
  then have "drawPixelFrame s = s\<lparr>smallCanvasRef := Some (small_canvas s)\<rparr>"
    by (intro drawPixelFrame_no_small_ctx) simp_all
  moreover have "cwidth (small_canvas s) = max 1 (targetWidth s)"
    "cheight (small_canvas s) = max 1 (targetHeight_of s)" "painted (small_canvas s) = []"
    by (simp_all add: small_canvas_def set_width_def set_height_def grid_columns_def grid_rows_def)
  moreover have "\<not> ctx2d (small_canvas s)" using a by (simp add: small_canvas_ctx)
  ultimately show "\<exists>sc. drawPixelFrame s = s\<lparr>smallCanvasRef := Some sc\<rparr>
           \<and> cwidth sc = max 1 (targetWidth s) \<and> cheight sc = max 1 (targetHeight_of s)
           \<and> \<not> ctx2d sc \<and> painted sc = []"
    by blast
next
  assume a: "videoRef s = Some v \<and> canvasRef s = Some c \<and> isReady s \<and> small_ctx_available s \<and> \<not> ctx2d c"
  then have "drawPixelFrame s =
     s\<lparr>smallCanvasRef := Some (drawImage 0 0 (grid_columns s) (grid_rows s) (small_canvas s)),
       pixelDataRef := Some (getImageData v (grid_columns s) (grid_rows s)),
       canvasRef := Some (sized_output s c)\<rparr>"
    by (intro drawPixelFrame_no_output_ctx) simp_all
  moreover have "painted (sized_output s c) = []" "\<not> ctx2d (sized_output s c)"
    "cwidth (sized_output s c) = max 1 (targetWidth s) * cellSize s + (max 1 (targetWidth s) + 1) * borderSize s"
    "cheight (sized_output s c) = max 1 (targetHeight_of s) * cellSize s + (max 1 (targetHeight_of s) + 1) * borderSize s"
    using a by (simp_all add: sized_output_def set_width_def set_height_def output_width_def
        output_height_def grid_columns_def grid_rows_def)
  ultimately show "\<exists>sc c'. drawPixelFrame s =
             s\<lparr>smallCanvasRef := Some sc,
               pixelDataRef := Some (getImageData v (max 1 (targetWidth s)) (max 1 (targetHeight_of s))),
               canvasRef := Some c'\<rparr>
           \<and> painted c' = [] \<and> \<not> ctx2d c'
           \<and> cwidth c' = max 1 (targetWidth s) * cellSize s + (max 1 (targetWidth s) + 1) * borderSize s
           \<and> cheight c' = max 1 (targetHeight_of s) * cellSize s + (max 1 (targetHeight_of s) + 1) * borderSize s"
    unfolding grid_columns_def grid_rows_def by blast
qed

theorem skipped_pass_witness:
  "drawPixelFrame (initial_app red_video True (\<lambda>t. True) True)
     = initial_app red_video True (\<lambda>t. True) True
   \<and> (\<exists>sc. drawPixelFrame ((loaded_app True (\<lambda>t. True) True)\<lparr>createElement_ctx2d := False\<rparr>)
          = (loaded_app True (\<lambda>t. True) True)
              \<lparr>createElement_ctx2d := False, smallCanvasRef := Some sc\<rparr>
        \<and> \<not> ctx2d sc)
   \<and> (\<exists>sc c'. drawPixelFrame (loaded_app True (\<lambda>t. True) False)
          = (loaded_app True (\<lambda>t. True) False)
              \<lparr>smallCanvasRef := Some sc,
               pixelDataRef := Some (getImageData red_video 96 96),
               canvasRef := Some c'\<rparr>
        \<and> painted c' = [] \<and> cwidth c' = 1057 \<and> cheight c' = 1057)"
proof -
  let ?a = "initial_app red_video True (\<lambda>t. True) True"
  let ?b = "(loaded_app True (\<lambda>t. True) True)\<lparr>createElement_ctx2d := False\<rparr>"
  let ?c = "loaded_app True (\<lambda>t. True) False"
  have a: "canvasRef ?a = None" by (simp add: initial_app_def)
  have b: "videoRef ?b = Some red_video" "canvasRef ?b = Some (mounted_canvas True)" "isReady ?b"
    "\<not> small_ctx_available ?b"
    by (simp_all add: loaded_app_def initial_app_def small_ctx_available_def)
  have c: "\<not> ctx2d (mounted_canvas False)" by (simp add: mounted_canvas_def)
  have n: "(96::nat) * 10 + (96 + 1) * 1 = 1057" by simp
  show ?thesis
    using skipped_pass [of ?a] a
      skipped_pass [of ?b red_video "mounted_canvas True"] b
      skipped_pass [of ?c red_video "mounted_canvas False", unfolded loaded_app_grid n]
      loaded_app_guard(1,2,3) [of True "\<lambda>t. True" False] loaded_app_small_ctx [of True "\<lambda>t. True" False] c
    by auto
qed

text \<open>
  C8, as the claim states it, fails: with the clip ready, the off-screen context
  available and the output canvas yielding no 2D context, the pass stores a pixel buffer
  where there was none, so the state is not left unchanged.
\<close>

theorem output_context_missing_changes_state:
  "\<not> ctx2d (mounted_canvas False)
   \<and> canvasRef (loaded_app True (\<lambda>t. True) False) = Some (mounted_canvas False)
   \<and> pixelDataRef (loaded_app True (\<lambda>t. True) False) = None
   \<and> pixelDataRef (drawPixelFrame (loaded_app True (\<lambda>t. True) False)) = Some (getImageData red_video 96 96)
   \<and> drawPixelFrame (loaded_app True (\<lambda>t. True) False) \<noteq> loaded_app True (\<lambda>t. True) False"
proof -
  have p: "pixelDataRef (loaded_app True (\<lambda>t. True) False) = None"
    by (simp add: loaded_app_def initial_app_def)
  have q: "pixelDataRef (drawPixelFrame (loaded_app True (\<lambda>t. True) False)) = Some (getImageData red_video 96 96)"
    by (simp add: drawPixelFrame_def loaded_app_def initial_app_def Let_def targetHeight_of_def th96
       set_width_def set_height_def createElement_canvas_def mounted_canvas_def)
  from p q have "drawPixelFrame (loaded_app True (\<lambda>t. True) False) \<noteq> loaded_app True (\<lambda>t. True) False"
    by auto
  with p q show ?thesis by (simp add: loaded_app_guard) (simp add: mounted_canvas_def)
qed

section \<open>Output dimensions\<close>

text \<open>
  C2. A pass that runs (video element and canvas present, clip ready, off-screen context
  available) samples a grid of \<open>columns = max 1 targetWidth\<close> by
  \<open>rows = max 1 targetHeight\<close> and gives the output canvas exactly the size
  \<open>columns * cellSize + (columns + 1) * borderSize\<close> by
  \<open>rows * cellSize + (rows + 1) * borderSize\<close>; running the pass again yields the same
  size, and the vector export computes the same size from the stored buffer. For a
  positive \<open>targetWidth\<close> and a positive derived height, \<open>columns\<close> and \<open>rows\<close> are
  these two numbers themselves.
\<close>

theorem output_dimensions:
  assumes "videoRef s = Some v" "canvasRef s = Some c" "isReady s" "small_ctx_available s"
  shows "\<exists>c' pd c''. canvasRef (drawPixelFrame s) = Some c' \<and> pixelDataRef (drawPixelFrame s) = Some pd
    \<and> iwidth pd = max 1 (targetWidth s) \<and> iheight pd = max 1 (targetHeight_of s)
    \<and> cwidth c' = iwidth pd * cellSize s + (iwidth pd + 1) * borderSize s
    \<and> cheight c' = iheight pd * cellSize s + (iheight pd + 1) * borderSize s
    \<and> canvasRef (drawPixelFrame (drawPixelFrame s)) = Some c''
    \<and> cwidth c'' = cwidth c' \<and> cheight c'' = cheight c'
    \<and> svg_parts pd (cellSize s) (borderSize s) ! 0 = SvgOpen (cwidth c') (cheight c')
    \<and> (1 \<le> targetWidth s \<longrightarrow> iwidth pd = targetWidth s)
    \<and> (1 \<le> targetHeight_of s \<longrightarrow> iheight pd = targetHeight_of s)"
proof -
  let ?s = "drawPixelFrame s"
  let ?pd = "getImageData v (max 1 (targetWidth s)) (max 1 (targetHeight_of s))"
  have pos: "1 \<le> targetWidth s \<longrightarrow> iwidth ?pd = targetWidth s"
    "1 \<le> targetHeight_of s \<longrightarrow> iheight ?pd = targetHeight_of s"
    by (simp_all add: getImageData_def max_def)
  obtain c' where c': "canvasRef ?s = Some c'"
    "cwidth c' = max 1 (targetWidth s) * cellSize s + (max 1 (targetWidth s) + 1) * borderSize s"
    "cheight c' = max 1 (targetHeight_of s) * cellSize s + (max 1 (targetHeight_of s) + 1) * borderSize s"
    using drawPixelFrame_sampled(2) [OF assms] by blast
  have again: "videoRef ?s = Some v" "isReady ?s" "small_ctx_available ?s"
    using drawPixelFrame_sampled(3,4,5) [OF assms] by simp_all
  have same: "targetWidth ?s = targetWidth s" "targetHeight_of ?s = targetHeight_of s"
    "cellSize ?s = cellSize s" "borderSize ?s = borderSize s"
    using drawPixelFrame_sampled(6,7,8,9) [OF assms] by simp_all
  obtain c'' where c'': "canvasRef (drawPixelFrame ?s) = Some c''"
    "cwidth c'' = cwidth c'" "cheight c'' = cheight c'"
    using drawPixelFrame_sampled(2) [OF again(1) c'(1) again(2,3)] c'(2,3) same by auto
  have pd: "pixelDataRef ?s = Some ?pd"
    using drawPixelFrame_sampled(1) [OF assms] .
  have dims: "iwidth ?pd = max 1 (targetWidth s)" "iheight ?pd = max 1 (targetHeight_of s)"
    by (simp_all add: getImageData_def)
  have svg: "svg_parts ?pd (cellSize s) (borderSize s) ! 0 = SvgOpen (cwidth c') (cheight c')"
    by (simp add: svg_parts_eq getImageData_sel c'(2,3))
  show ?thesis
    using c' c'' pd svg pos
    by (intro exI [of _ c'] exI [of _ ?pd] exI [of _ c'']) (simp add: getImageData_sel)
qed

theorem output_dimensions_witness:
  "\<exists>c' pd. canvasRef (drawPixelFrame (loaded_app True (\<lambda>t. True) True)) = Some c'
     \<and> pixelDataRef (drawPixelFrame (loaded_app True (\<lambda>t. True) True)) = Some pd
     \<and> iwidth pd = 96 \<and> iheight pd = 96 \<and> cwidth c' = 1057 \<and> cheight c' = 1057"
proof -
  have n: "(96::nat) * 10 + (96 + 1) * 1 = 1057" by simp
  show ?thesis
    using output_dimensions [OF loaded_app_guard(1,2,3) loaded_app_small_ctx,
        of True "\<lambda>t. True" True, unfolded loaded_app_grid]
    by (auto simp add: n)
qed

section \<open>Structured dump\<close>

text \<open>
  C4. For a stored pixel buffer of \<open>columns\<close> by \<open>rows\<close> samples, the structured
  dump's \<open>colors\<close> array is the buffer's bytes in the same order; cut into
  \<open>rows\<close> rows of \<open>columns\<close> groups of four it is the buffer's grid of R, G, B, A
  samples; its length is \<open>rows * columns * 4\<close>, which is 576 for a 16 by 9 grid.
\<close>

theorem json_export_round_trip:
  assumes "canvasRef s = Some c" "pixelDataRef s = Some pd" "wf_image pd" "downloadMode s = Json"
  shows "\<exists>p. handleDownload s =
            downloadBlob (Blob (JsonText p) ''application/json'') ''pixel-frame.json'' s
     \<and> colors p = map unat (idata pd)
     \<and> length (colors p) = iheight pd * iwidth pd * 4
     \<and> grid_width p = iwidth pd \<and> grid_height p = iheight pd
     \<and> reshape (iheight pd) (iwidth pd) (colors p) = map (map (map unat)) (pixel_grid pd)
     \<and> (iwidth pd = 16 \<and> iheight pd = 9 \<longrightarrow> length (colors p) = 576)"
proof -
  let ?p = "json_payload s pd"
  have col: "colors ?p = map unat (idata pd)"
    by (simp add: json_payload_def push_colors_eq)
  have len: "length (colors ?p) = iheight pd * iwidth pd * 4"
    using assms(3) by (simp add: col wf_image_def mult.commute)
  have idx: "colors ?p ! ((y * iwidth pd + x) * 4 + ch) = unat (idata pd ! ((y * iwidth pd + x) * 4 + ch))"
    if "y < iheight pd" "x < iwidth pd" "ch < 4" for x y ch
  proof -
    have "(y * iwidth pd + x) * 4 + ch < length (idata pd)"
      using cell_index_bound [OF that] assms(3) by (simp add: wf_image_def)
    then show ?thesis by (simp add: col)
  qed
  have four: "[0..<4] = [0, 1, 2, Suc 2]"
    by (simp add: upt_rec numeral_eq_Suc)
  have resh: "reshape (iheight pd) (iwidth pd) (colors ?p) = map (map (map unat)) (pixel_grid pd)"
    unfolding reshape_def pixel_grid_def sample_def Let_def four
    using idx [where ch = 0] idx [where ch = 1] idx [where ch = 2] idx [where ch = 3]
    by (simp add: numeral_3_eq_3)
  have "handleDownload s = downloadBlob (Blob (JsonText ?p) ''application/json'') ''pixel-frame.json'' s"
    using assms by (simp add: handleDownload_def)
  then show ?thesis
    using col len resh by (intro exI [of _ ?p]) (simp add: json_payload_def)
qed


theorem json_export_round_trip_witness:
  "\<exists>p. handleDownload json_scenario =
          downloadBlob (Blob (JsonText p) ''application/json'') ''pixel-frame.json'' json_scenario
      \<and> length (colors p) = 576 \<and> grid_width p = 16 \<and> grid_height p = 9"
proof -
  let ?pd = "\<lparr>iwidth = 16, iheight = 9, idata = replicate 576 (0::byte)\<rparr>"
  have g: "canvasRef json_scenario = Some (mounted_canvas True)"
    "pixelDataRef json_scenario = Some ?pd" "wf_image ?pd" "downloadMode json_scenario = Json"
    by (simp_all add: json_scenario_def loaded_app_def initial_app_def wf_image_def)
  show ?thesis
    using json_export_round_trip [OF g] by auto
qed

section \<open>Vector export against the raster\<close>

text \<open>
  C5. After a complete pass over a buffer of \<open>columns\<close> by \<open>rows\<close> samples, the
  vector export of the same state is a document of the output canvas's size that holds
  one background rectangle and one rectangle per cell (so \<open>1 + columns * rows\<close>
  rectangle elements), and the rectangle of every cell \<open>(x, y)\<close> has the position, the
  size and the fill colour of the \<^verbatim>\<open>fillRect\<close> call the pass made for that cell.
\<close>

theorem svg_matches_raster:
  assumes "videoRef s = Some v" "canvasRef s = Some c" "isReady s" "small_ctx_available s"
    and "ctx2d c"
  shows "\<exists>c' pd. canvasRef (drawPixelFrame s) = Some c' \<and> pixelDataRef (drawPixelFrame s) = Some pd
    \<and> painted c' = FillRect (Hex ''#ffffff'') 0 0 (cwidth c') (cheight c')
         # cell_rects (idata pd) (iwidth pd) (iheight pd) (cellSize s) (borderSize s)
    \<and> handleDownload ((drawPixelFrame s)\<lparr>downloadMode := Svg\<rparr>) =
         downloadBlob
           (Blob (SvgText ([SvgOpen (cwidth c') (cheight c'), SvgBackground (Hex ''#ffffff'')]
                    @ svg_cells (idata pd) (iwidth pd) (iheight pd) (cellSize s) (borderSize s)
                    @ [SvgClose])) ''image/svg+xml'')
           ''pixel-frame.svg'' ((drawPixelFrame s)\<lparr>downloadMode := Svg\<rparr>)
    \<and> length (filter is_rect_element
          ([SvgOpen (cwidth c') (cheight c'), SvgBackground (Hex ''#ffffff'')]
            @ svg_cells (idata pd) (iwidth pd) (iheight pd) (cellSize s) (borderSize s)
            @ [SvgClose])) = 1 + iwidth pd * iheight pd
    \<and> map part_rect (svg_cells (idata pd) (iwidth pd) (iheight pd) (cellSize s) (borderSize s))
        = map call_rect (cell_rects (idata pd) (iwidth pd) (iheight pd) (cellSize s) (borderSize s))
    \<and> (\<forall>y<iheight pd. \<forall>x<iwidth pd.
          painted c' ! (1 + (y * iwidth pd + x))
            = cell_rect (idata pd) (iwidth pd) (cellSize s) (borderSize s) y x
        \<and> svg_cells (idata pd) (iwidth pd) (iheight pd) (cellSize s) (borderSize s) ! (y * iwidth pd + x)
            = svg_cell (idata pd) (iwidth pd) (cellSize s) (borderSize s) y x
        \<and> part_rect (svg_cell (idata pd) (iwidth pd) (cellSize s) (borderSize s) y x)
            = call_rect (cell_rect (idata pd) (iwidth pd) (cellSize s) (borderSize s) y x))"
proof -
  let ?s = "drawPixelFrame s"
  let ?W = "max 1 (targetWidth s)" and ?H = "max 1 (targetHeight_of s)"
  let ?pd = "getImageData v ?W ?H"
  obtain c' where c': "canvasRef ?s = Some c'"
    "painted c' = FillRect (Hex ''#ffffff'') 0 0 (cwidth c') (cheight c')
        # cell_rects (frame v ?W ?H) ?W ?H (cellSize s) (borderSize s)"
    using drawPixelFrame_painted [OF assms] by blast
  obtain c2 where c2: "canvasRef ?s = Some c2"
    "cwidth c2 = ?W * cellSize s + (?W + 1) * borderSize s"
    "cheight c2 = ?H * cellSize s + (?H + 1) * borderSize s"
    using drawPixelFrame_sampled(2) [OF assms(1-4)] by blast
  have dims: "cwidth c' = ?W * cellSize s + (?W + 1) * borderSize s"
    "cheight c' = ?H * cellSize s + (?H + 1) * borderSize s"
    using c' c2 by simp_all
  have pd: "pixelDataRef ?s = Some ?pd"
    using drawPixelFrame_sampled(1) [OF assms(1-4)] .
  have f: "idata ?pd = frame v ?W ?H" "iwidth ?pd = ?W" "iheight ?pd = ?H"
    by (simp_all add: getImageData_def)
  have same: "cellSize ?s = cellSize s" "borderSize ?s = borderSize s"
    using drawPixelFrame_sampled(8,9) [OF assms(1-4)] by simp_all
  have dl: "handleDownload (?s\<lparr>downloadMode := Svg\<rparr>) =
         downloadBlob
           (Blob (SvgText ([SvgOpen (cwidth c') (cheight c'), SvgBackground (Hex ''#ffffff'')]
                    @ svg_cells (idata ?pd) (iwidth ?pd) (iheight ?pd) (cellSize s) (borderSize s)
                    @ [SvgClose])) ''image/svg+xml'')
           ''pixel-frame.svg'' (?s\<lparr>downloadMode := Svg\<rparr>)"
    using c'(1) pd same by (simp add: handleDownload_def svg_parts_eq dims getImageData_sel)
  have cnt: "length (filter is_rect_element
          ([SvgOpen (cwidth c') (cheight c'), SvgBackground (Hex ''#ffffff'')]
            @ svg_cells (idata ?pd) (iwidth ?pd) (iheight ?pd) (cellSize s) (borderSize s)
            @ [SvgClose])) = 1 + iwidth ?pd * iheight ?pd"
    by (simp add: rects_svg_cells length_svg_cells)
  have agree: "map part_rect (svg_cells d w h cs bs) = map call_rect (cell_rects d w h cs bs)" for d w h cs bs
    by (simp add: svg_cells_def cell_rects_def map_concat comp_def cell_agreement)
  have cells: "painted c' ! (1 + (y * iwidth ?pd + x))
            = cell_rect (idata ?pd) (iwidth ?pd) (cellSize s) (borderSize s) y x
        \<and> svg_cells (idata ?pd) (iwidth ?pd) (iheight ?pd) (cellSize s) (borderSize s) ! (y * iwidth ?pd + x)
            = svg_cell (idata ?pd) (iwidth ?pd) (cellSize s) (borderSize s) y x
        \<and> part_rect (svg_cell (idata ?pd) (iwidth ?pd) (cellSize s) (borderSize s) y x)
            = call_rect (cell_rect (idata ?pd) (iwidth ?pd) (cellSize s) (borderSize s) y x)"
    if "y < iheight ?pd" "x < iwidth ?pd" for x y
    using that
    by (simp add: c'(2) getImageData_sel nth_cell_rects nth_svg_cells cell_agreement)
  show ?thesis
    apply (intro exI [of _ c'] exI [of _ ?pd])
    using c' pd dl cnt agree cells by (simp add: getImageData_sel)
qed


theorem svg_matches_raster_witness:
  "\<exists>c' pd. canvasRef (drawPixelFrame red_scenario) = Some c'
     \<and> pixelDataRef (drawPixelFrame red_scenario) = Some pd
     \<and> map part_rect (svg_cells (idata pd) (iwidth pd) (iheight pd) 10 1) = map call_rect (tl (painted c'))
     \<and> length (painted c') = 5"
proof -
  obtain c' pd where r: "canvasRef (drawPixelFrame red_scenario) = Some c'"
    "pixelDataRef (drawPixelFrame red_scenario) = Some pd"
    "painted c' = FillRect (Hex ''#ffffff'') 0 0 (cwidth c') (cheight c')
         # cell_rects (idata pd) (iwidth pd) (iheight pd) 10 1"
    "map part_rect (svg_cells (idata pd) (iwidth pd) (iheight pd) 10 1)
        = map call_rect (cell_rects (idata pd) (iwidth pd) (iheight pd) 10 1)"
    using svg_matches_raster [OF red_scenario_guard(1-5), unfolded red_scenario_guard(8,9)]
    by blast
  have W: "max 1 (targetWidth red_scenario) = 2" "max 1 (targetHeight_of red_scenario) = 2"
    by (simp_all add: red_scenario_guard)
  have "pixelDataRef (drawPixelFrame red_scenario) = Some (getImageData red_video 2 2)"
    using drawPixelFrame_sampled(1) [OF red_scenario_guard(1-4), unfolded W] .
  then have "pd = getImageData red_video 2 2"
    using r(2) by simp
  then have "iwidth pd = 2" "iheight pd = 2"
    by (simp_all only: getImageData_sel)
  then have "length (cell_rects (idata pd) (iwidth pd) (iheight pd) 10 1) = 4"
    by (simp add: length_cell_rects)
  then show ?thesis
    using r by auto
qed

section \<open>The grid render pass\<close>

text \<open>
  C1. A complete pass over a buffer of \<open>columns\<close> by \<open>rows\<close> samples first fills
  the whole output raster with \<^verbatim>\<open>#ffffff\<close> and then, row by row, fills for each cell
  \<open>(x, y)\<close> a square of side \<open>cellSize\<close> at offset
  \<open>(borderSize + x * (cellSize + borderSize), borderSize + y * (cellSize + borderSize))\<close> with
  the colour \<^verbatim>\<open>rgba(r, g, b, a / 255)\<close> read at index \<open>(y * columns + x) * 4\<close>, every
  read being inside the buffer. For two columns and two rows of a uniformly red clip,
  cell size 10 and border 1, the output is 23 by 23 pixels; the pixels with \<open>x\<close> or
  \<open>y\<close> in \<open>{0, 11, 22}\<close> are white and all others are red.
\<close>

theorem grid_render_pass:
  "(videoRef s = Some v \<and> canvasRef s = Some c \<and> isReady s \<and> small_ctx_available s \<and> ctx2d c
      \<and> columns = max 1 (targetWidth s) \<and> rows = max 1 (targetHeight_of s)
      \<and> length (frame v columns rows) = columns * rows * 4
    \<longrightarrow> (\<exists>c'. canvasRef (drawPixelFrame s) = Some c'
          \<and> pixelDataRef (drawPixelFrame s)
              = Some \<lparr>iwidth = columns, iheight = rows, idata = frame v columns rows\<rparr>
          \<and> cwidth c' = columns * cellSize s + (columns + 1) * borderSize s
          \<and> cheight c' = rows * cellSize s + (rows + 1) * borderSize s
          \<and> painted c' = FillRect (Hex ''#ffffff'') 0 0 (cwidth c') (cheight c')
               # cell_rects (frame v columns rows) columns rows (cellSize s) (borderSize s)
          \<and> (\<forall>y<rows. \<forall>x<columns.
                painted c' ! (1 + (y * columns + x))
                  = cell_rect (frame v columns rows) columns (cellSize s) (borderSize s) y x
              \<and> (y * columns + x) * 4 + 3 < length (frame v columns rows))))
   \<and> (\<exists>c'. canvasRef (drawPixelFrame red_scenario) = Some c'
        \<and> pixelDataRef (drawPixelFrame red_scenario)
            = Some \<lparr>iwidth = 2, iheight = 2, idata = concat (replicate 4 [255, 0, 0, 255])\<rparr>
        \<and> cwidth c' = 23 \<and> cheight c' = 23
        \<and> (\<forall>px<23. \<forall>py<23.
              pixel_at (painted c') px py
                = (if px \<in> {0, 11, 22} \<or> py \<in> {0, 11, 22}
                   then (255, 255, 255, 1) else (255, 0, 0, 1))))"
proof (intro conjI impI)
  assume a: "videoRef s = Some v \<and> canvasRef s = Some c \<and> isReady s \<and> small_ctx_available s \<and> ctx2d c
      \<and> columns = max 1 (targetWidth s) \<and> rows = max 1 (targetHeight_of s)
      \<and> length (frame v columns rows) = columns * rows * 4"
  then have g: "videoRef s = Some v" "canvasRef s = Some c" "isReady s" "small_ctx_available s"
    "ctx2d c" and cr: "columns = max 1 (targetWidth s)" "rows = max 1 (targetHeight_of s)"
    and len: "length (frame v columns rows) = columns * rows * 4"
    by blast+
  obtain c' where c': "canvasRef (drawPixelFrame s) = Some c'"
    "painted c' = FillRect (Hex ''#ffffff'') 0 0 (cwidth c') (cheight c')
        # cell_rects (frame v columns rows) columns rows (cellSize s) (borderSize s)"
    using drawPixelFrame_painted [OF g] unfolding cr by blast
  obtain c2 where c2: "canvasRef (drawPixelFrame s) = Some c2"
    "cwidth c2 = columns * cellSize s + (columns + 1) * borderSize s"
    "cheight c2 = rows * cellSize s + (rows + 1) * borderSize s"
    using drawPixelFrame_sampled(2) [OF g(1-4)] unfolding cr by blast
  have pd: "pixelDataRef (drawPixelFrame s)
      = Some \<lparr>iwidth = columns, iheight = rows, idata = frame v columns rows\<rparr>"
    using drawPixelFrame_sampled(1) [OF g(1-4)] unfolding cr getImageData_def .
  have cells: "painted c' ! (1 + (y * columns + x))
                  = cell_rect (frame v columns rows) columns (cellSize s) (borderSize s) y x
              \<and> (y * columns + x) * 4 + 3 < length (frame v columns rows)"
    if "y < rows" "x < columns" for x y
    using that cell_index_bound [of y rows x columns 3]
    by (simp add: c'(2) nth_cell_rects len)
  show "\<exists>c'. canvasRef (drawPixelFrame s) = Some c'
          \<and> pixelDataRef (drawPixelFrame s)
              = Some \<lparr>iwidth = columns, iheight = rows, idata = frame v columns rows\<rparr>
          \<and> cwidth c' = columns * cellSize s + (columns + 1) * borderSize s
          \<and> cheight c' = rows * cellSize s + (rows + 1) * borderSize s
          \<and> painted c' = FillRect (Hex ''#ffffff'') 0 0 (cwidth c') (cheight c')
               # cell_rects (frame v columns rows) columns rows (cellSize s) (borderSize s)
          \<and> (\<forall>y<rows. \<forall>x<columns.
                painted c' ! (1 + (y * columns + x))
                  = cell_rect (frame v columns rows) columns (cellSize s) (borderSize s) y x
              \<and> (y * columns + x) * 4 + 3 < length (frame v columns rows))"
    using c' c2 pd cells by (intro exI [of _ c']) simp
next
  obtain c' where c': "canvasRef (drawPixelFrame red_scenario) = Some c'"
    "cwidth c' = 23" "cheight c' = 23"
    "painted c' = [FillRect (Hex ''#ffffff'') 0 0 23 23,
       FillRect (Rgba 255 0 0 1) 1 1 10 10, FillRect (Rgba 255 0 0 1) 12 1 10 10,
       FillRect (Rgba 255 0 0 1) 1 12 10 10, FillRect (Rgba 255 0 0 1) 12 12 10 10]"
    using red_result by blast
  have W: "max 1 (targetWidth red_scenario) = 2" "max 1 (targetHeight_of red_scenario) = 2"
    by (simp_all add: red_scenario_guard)
  have "pixelDataRef (drawPixelFrame red_scenario) = Some (getImageData red_video 2 2)"
    using drawPixelFrame_sampled(1) [OF red_scenario_guard(1-4), unfolded W] .
  moreover have "getImageData red_video 2 2
      = \<lparr>iwidth = 2, iheight = 2, idata = concat (replicate 4 [255, 0, 0, 255])\<rparr>"
    by (simp add: getImageData_def red_video_def)
  ultimately have pd: "pixelDataRef (drawPixelFrame red_scenario)
      = Some \<lparr>iwidth = 2, iheight = 2, idata = concat (replicate 4 [255, 0, 0, 255])\<rparr>"
    by simp
  show "\<exists>c'. canvasRef (drawPixelFrame red_scenario) = Some c'
        \<and> pixelDataRef (drawPixelFrame red_scenario)
            = Some \<lparr>iwidth = 2, iheight = 2, idata = concat (replicate 4 [255, 0, 0, 255])\<rparr>
        \<and> cwidth c' = 23 \<and> cheight c' = 23
        \<and> (\<forall>px<23. \<forall>py<23.
              pixel_at (painted c') px py
                = (if px \<in> {0, 11, 22} \<or> py \<in> {0, 11, 22}
                   then (255, 255, 255, 1) else (255, 0, 0, 1)))"
    using c'(1,2,3) pd red_pixels unfolding c'(4) [symmetric]
    by (intro exI [of _ c']) simp
qed

theorem grid_render_pass_witness:
  "\<exists>c'. canvasRef (drawPixelFrame red_scenario) = Some c'
     \<and> painted c' ! 0 = FillRect (Hex ''#ffffff'') 0 0 23 23
     \<and> painted c' ! 4 = FillRect (Rgba 255 0 0 1) 12 12 10 10"
proof -
  have W: "2 = max 1 (targetWidth red_scenario)" "2 = max 1 (targetHeight_of red_scenario)"
    by (simp_all add: red_scenario_guard)
  have L: "length (frame red_video 2 2) = 2 * 2 * 4"
    by (simp add: red_video_def length_uniform)
  have D: "(2::nat) * 10 + (2 + 1) * 1 = 23" by simp
  obtain c' where c': "canvasRef (drawPixelFrame red_scenario) = Some c'"
    "cwidth c' = 23" "cheight c' = 23"
    "painted c' = FillRect (Hex ''#ffffff'') 0 0 (cwidth c') (cheight c')
               # cell_rects (frame red_video 2 2) 2 2 10 1"
    using grid_render_pass [of red_scenario red_video "mounted_canvas True" 2 2]
      red_scenario_guard(1-5) W L
    unfolding red_scenario_guard(8,9) D by blast
  show ?thesis
    using c'(1) c'(4) [unfolded red_cells c'(2,3)] by simp
qed

section \<open>Video export: guard, unsupported format, cleanup\<close>

lemma pending_in_flight: "handleVideoExport oc s = Pending s' \<Longrightarrow> isExporting s'"
  by (auto simp: handleVideoExport_def Let_def emit_def split: if_splits option.splits)

lemma guarded_export_returns:
  "videoRef s = None \<or> canvasRef s = None \<or> \<not> isReady s \<or> isExporting s
     \<Longrightarrow> handleVideoExport oc s = Returned s"
  by (auto simp: handleVideoExport_def)

text \<open>
  C10. Invoking the video export while an export is in flight, or before a clip is
  ready (or with the video element or the canvas absent), returns at once with the state
  as it was: nothing is added to the log of browser calls, so no capture stream, no
  recorder, no playback. In particular an invocation made while a started export is
  still waiting starts no second job.
\<close>

theorem handleVideoExport_guard_noop:
  "(videoRef s = None \<or> canvasRef s = None \<or> \<not> isReady s \<or> isExporting s
      \<longrightarrow> handleVideoExport oc s = Returned s)
   \<and> (handleVideoExport oc s = Pending s' \<longrightarrow> handleVideoExport oc' s' = Returned s')"
  using guarded_export_returns pending_in_flight by blast

theorem handleVideoExport_guard_noop_witness:
  "isExporting ((loaded_app True (\<lambda>t. True) True)\<lparr>isExporting := True\<rparr>)
   \<and> handleVideoExport one_track ((loaded_app True (\<lambda>t. True) True)\<lparr>isExporting := True\<rparr>)
       = Returned ((loaded_app True (\<lambda>t. True) True)\<lparr>isExporting := True\<rparr>)
   \<and> (\<exists>s'. handleVideoExport never_ends (loaded_app True (\<lambda>t. True) True) = Pending s'
          \<and> handleVideoExport one_track s' = Returned s')"
proof -
  have busy: "isExporting ((loaded_app True (\<lambda>t. True) True)\<lparr>isExporting := True\<rparr>)"
    by simp
  obtain s' where p: "handleVideoExport never_ends (loaded_app True (\<lambda>t. True) True) = Pending s'"
    by (simp add: handleVideoExport_def loaded_app_guard loaded_app_mime never_ends_def
        one_track_def Let_def)
  show ?thesis
    using busy p
      handleVideoExport_guard_noop
        [of "(loaded_app True (\<lambda>t. True) True)\<lparr>isExporting := True\<rparr>" one_track]
      handleVideoExport_guard_noop [of "loaded_app True (\<lambda>t. True) True" never_ends s' one_track]
    by simp
qed

text \<open>
  C6, as the code has it. A video export request that passes the entry guard (video
  element and canvas present, clip ready, no export in flight) and whose format has no
  supported codec returns at once; its only effect is the unsupported-format message:
  no capture stream, no recorder, no playback, and the in-flight flag is not touched.
\<close>

theorem unsupported_format_reported:
  assumes "videoRef s \<noteq> None" "canvasRef s \<noteq> None" "isReady s" "\<not> isExporting s"
    and "supportedVideoMimes s (videoFormat s) = None"
  shows "handleVideoExport oc s =
     Returned (s\<lparr>exportError :=
                   Some (format_upper (videoFormat s) @ '' export is not supported in this browser.''),
                 effects := effects s @
                   [SetExportError (Some (format_upper (videoFormat s) @
                                           '' export is not supported in this browser.''))]\<rparr>)"
  using assms by (auto simp add: handleVideoExport_def emit_def)

theorem unsupported_format_reported_witness:
  "handleVideoExport one_track (loaded_app False (\<lambda>t. False) True) =
     Returned ((loaded_app False (\<lambda>t. False) True)
       \<lparr>exportError := Some ''WEBM export is not supported in this browser.'',
        effects := [SetExportError (Some ''WEBM export is not supported in this browser.'')]\<rparr>)"
  using unsupported_format_reported [of "loaded_app False (\<lambda>t. False) True" one_track]
  by (simp add: loaded_app_guard loaded_app_mime)
    (simp add: loaded_app_def initial_app_def format_upper_def)

text \<open>
  C6, as the claim states it, fails: on the freshly mounted component (no clip ready)
  in a browser without a recorder, the selected format has no supported codec, yet the
  request returns with the state untouched and reports no message.
\<close>

theorem unsupported_format_silent_when_unready:
  "supportedVideoMimes (initial_app red_video False (\<lambda>t. False) True)
       (videoFormat (initial_app red_video False (\<lambda>t. False) True)) = None
   \<and> handleVideoExport one_track (initial_app red_video False (\<lambda>t. False) True)
       = Returned (initial_app red_video False (\<lambda>t. False) True)
   \<and> exportError (initial_app red_video False (\<lambda>t. False) True) = None"
  by (simp add: handleVideoExport_def initial_app_def supportedVideoMimes_def)



section \<open>The clip's object URL over a session\<close>

text \<open>
  C9 asks for exactly one release of every clip URL. Selecting a first file and then a
  second releases the first file's URL twice: once in the change handler and once more
  by the cleanup of the effect; the second file's URL is released once, at teardown.
\<close>

theorem replaced_url_revoked_twice:
  "revocations 0 (session [Some 1, Some 2] (initial_app red_video False (\<lambda>t. False) True)) = 2
   \<and> revocations 1 (session [Some 1, Some 2] (initial_app red_video False (\<lambda>t. False) True)) = 1"
  by (simp add: revocations_def session_def select_file_def handleFileChange_def initial_app_def
      rerender_def unmount_def videoUrl_cleanup_def revokeObjectURL_def emit_def Let_def)

end
